theory Spec2Isabelle
  imports Complex_Main "HOL-Library.Sublist" "HOL-Library.AList"
begin

section \<open>JavaScript strings\<close>

text \<open>
  The plugin is TypeScript; its strings are modelled as \<^typ>\<open>string\<close>, one \<^typ>\<open>char\<close>
  per code unit, for the code units \<open>U+0000\<close> to \<open>U+00FF\<close> (Basic Latin and the Latin-1
  Supplement). The query language, the date literals and the numbers are ASCII; a
  string with a code unit beyond \<open>U+00FF\<close> is not covered by the model.
\<close>

definition isWhiteSpace :: "char \<Rightarrow> bool" where
  \<comment> \<open>the members below \<open>U+0100\<close> of the class \<open>\s\<close> and of the white space \<open>trim\<close>
      removes: tab, line feed, vertical tab, form feed, carriage return, space and
      the no-break space \<open>U+00A0\<close>\<close>
  "isWhiteSpace c \<longleftrightarrow>
     c \<in> set [CHR '' '', CHR 0x09, CHR 0x0A, CHR 0x0B, CHR 0x0C, CHR 0x0D, CHR 0xA0]"

text \<open>
  \<open>toUpperCase\<close>, by the Unicode case mappings: the letters \<open>a\<close> to \<open>z\<close> and \<open>U+00E0\<close> to
  \<open>U+00FE\<close> (but for the division sign \<open>U+00F7\<close>) map to the letter 32 below, and \<open>U+00DF\<close>
  (sharp s) maps to \<open>SS\<close>. The upper case of \<open>U+00B5\<close> (micro sign) and of \<open>U+00FF\<close> is
  \<open>U+039C\<close> and \<open>U+0178\<close>, beyond the code units of the model: in an upper-cased string
  the characters \<open>0xB5\<close> and \<open>0xFF\<close> stand for these two letters, which is unambiguous
  since no upper-cased string holds \<open>U+00B5\<close> or \<open>U+00FF\<close> itself.
\<close>

definition upperChar :: "char \<Rightarrow> string" where
  "upperChar c =
     (let n = (of_char c :: int)
      in if (97 \<le> n \<and> n \<le> 122) \<or> (224 \<le> n \<and> n \<le> 254 \<and> n \<noteq> 247) then [char_of (n - 32)]
         else if n = 223 then ''SS''
         else [c])"

definition toUpperCase :: "string \<Rightarrow> string" where
  "toUpperCase s = concat (map upperChar s)"

definition trim :: "string \<Rightarrow> string" where
  "trim s = rev (dropWhile isWhiteSpace (rev (dropWhile isWhiteSpace s)))"

text \<open>
  \<open>s.split(/\s+/)\<close>: the pieces of \<open>s\<close> between the maximal runs of white space. The
  empty string gives one empty piece; white space at either end gives an empty piece
  there.
\<close>

function split_ws :: "string \<Rightarrow> string list" where
  "split_ws s =
     (let piece = takeWhile (\<lambda>c. \<not> isWhiteSpace c) s;
          rest = dropWhile (\<lambda>c. \<not> isWhiteSpace c) s
      in if rest = [] then [piece] else piece # split_ws (dropWhile isWhiteSpace rest))"
  by pat_completeness auto
termination
proof (relation "measure length")
  show "wf (measure length)" by simp
next
  fix s :: string and piece rest
  assume rest: "rest = dropWhile (\<lambda>c. \<not> isWhiteSpace c) s" and ne: "rest \<noteq> []"
  have "length (dropWhile isWhiteSpace rest) < length rest"
  proof (cases rest)
    case Nil
    with ne show ?thesis by simp
  next
    case (Cons c cs)
    have "isWhiteSpace (hd rest)"
      using ne hd_dropWhile [of "\<lambda>c. \<not> isWhiteSpace c" s] rest by simp
    then have "dropWhile isWhiteSpace rest = dropWhile isWhiteSpace cs"
      using Cons by simp
    then show ?thesis
      using Cons length_dropWhile_le [of isWhiteSpace cs] by simp
  qed
  moreover have "length rest \<le> length s"
    using rest length_dropWhile_le by simp
  ultimately show "(dropWhile isWhiteSpace rest, s) \<in> measure length" by simp
qed

declare split_ws.simps [simp del]

text \<open>\<open>s.includes(p)\<close> and \<open>s.replace(p, r)\<close> for a string pattern: the first match only.\<close>

fun str_includes :: "string \<Rightarrow> string \<Rightarrow> bool" where
  "str_includes [] p = (p = [])"
| "str_includes (c # cs) p = (prefix p (c # cs) \<or> str_includes cs p)"

fun str_replace :: "string \<Rightarrow> string \<Rightarrow> string \<Rightarrow> string" where
  "str_replace [] p r = (if p = [] then r else [])"
| "str_replace (c # cs) p r =
     (if prefix p (c # cs) then r @ drop (length p) (c # cs) else c # str_replace cs p r)"

text \<open>\<open>xs[i]\<close> of an array: \<open>undefined\<close> (here \<open>None\<close>) beyond the end.\<close>

definition index :: "'a list \<Rightarrow> nat \<Rightarrow> 'a option" where
  "index xs i = (if i < length xs then Some (xs ! i) else None)"

section \<open>JavaScript numbers\<close>

text \<open>
  A number that the date code handles is an integer or \<open>NaN\<close>: \<^typ>\<open>int option\<close>, with
  \<open>None\<close> for \<open>NaN\<close>. Arithmetic with \<open>NaN\<close> gives \<open>NaN\<close>.
\<close>

type_synonym number = "int option"

definition num_add :: "number \<Rightarrow> number \<Rightarrow> number" where
  "num_add a b = (case a of None \<Rightarrow> None | Some x \<Rightarrow> (case b of None \<Rightarrow> None | Some y \<Rightarrow> Some (x + y)))"

definition num_sub :: "number \<Rightarrow> number \<Rightarrow> number" where
  "num_sub a b = (case a of None \<Rightarrow> None | Some x \<Rightarrow> (case b of None \<Rightarrow> None | Some y \<Rightarrow> Some (x - y)))"

definition isNaN :: "number \<Rightarrow> bool" where
  "isNaN a \<longleftrightarrow> a = None"

definition digit_of :: "int \<Rightarrow> char \<Rightarrow> int option" where
  \<comment> \<open>the value of a digit of radix \<open>R\<close>: \<open>0-9\<close>, then letters of either case\<close>
  "digit_of R c =
     (let n = (of_char c :: int);
          v = (if 48 \<le> n \<and> n \<le> 57 then Some (n - 48)
               else if 65 \<le> n \<and> n \<le> 90 then Some (n - 55)
               else if 97 \<le> n \<and> n \<le> 122 then Some (n - 87)
               else None)
      in case v of None \<Rightarrow> None | Some d \<Rightarrow> if d < R then Some d else None)"

definition radix_value :: "int \<Rightarrow> string \<Rightarrow> int" where
  "radix_value R Z =
     foldl (\<lambda>a c. case digit_of R c of None \<Rightarrow> a | Some d \<Rightarrow> a * R + d) 0 Z"

text \<open>
  \<open>parseInt(string)\<close> with no radix (ECMAScript, \<open>parseInt\<close>): skip leading white space,
  read a sign, take the prefix \<open>0x\<close> or \<open>0X\<close> as radix 16, and read the longest run of
  digits; what follows the run is ignored, and an empty run gives \<open>NaN\<close>. The value is
  exact here; the engine rounds a run of more than 15 digits to a double, which changes
  no date below, since such a day count is far beyond the range of \<open>Date\<close>.
\<close>

definition parseInt :: "string \<Rightarrow> number" where
  "parseInt string =
     (let S0 = dropWhile isWhiteSpace string;
          sign = (if take 1 S0 = ''-'' then - 1 else 1 :: int);
          S1 = (if take 1 S0 = ''+'' \<or> take 1 S0 = ''-'' then drop 1 S0 else S0);
          hex = (take 2 S1 = ''0x'' \<or> take 2 S1 = ''0X'');
          R = (if hex then 16 else 10);
          S2 = (if hex then drop 2 S1 else S1);
          Z = takeWhile (\<lambda>c. digit_of R c \<noteq> None) S2
      in if Z = [] then None else Some (sign * radix_value R Z))"

text \<open>\<open>ToString\<close> of a token that may be \<open>undefined\<close>, as \<open>parseInt\<close> applies it.\<close>

definition ToString :: "string option \<Rightarrow> string" where
  "ToString v = (case v of None \<Rightarrow> ''undefined'' | Some s \<Rightarrow> s)"

text \<open>\<open>Number.prototype.toString\<close> on an integer or \<open>NaN\<close>, and \<open>padStart(2, '0')\<close>.\<close>

definition digitChar :: "int \<Rightarrow> char" where
  "digitChar d = ''0123456789'' ! nat d"

function digits :: "int \<Rightarrow> string" where
  "digits n = (if n < 10 then [digitChar n] else digits (n div 10) @ [digitChar (n mod 10)])"
  by pat_completeness auto
termination
  by (relation "measure nat") auto

declare digits.simps [simp del]

definition Number_toString :: "number \<Rightarrow> string" where
  "Number_toString a =
     (case a of None \<Rightarrow> ''NaN''
      | Some x \<Rightarrow> if x < 0 then ''-'' @ digits (- x) else digits x)"

definition padStart2 :: "string \<Rightarrow> string" where
  "padStart2 s = replicate (2 - length s) (CHR ''0'') @ s"

section \<open>ECMAScript time values and dates\<close>

text \<open>
  A \<open>Date\<close> holds a time value: milliseconds since 1 January 1970 UTC, at most
  \<open>8.64e15\<close> in absolute value, or \<open>NaN\<close> (an invalid date). The definitions follow the
  ECMAScript specification of \<open>Date\<close> (Day, TimeWithinDay, DayFromYear, YearFromTime,
  MonthFromTime, DateFromTime, WeekDay, MakeDay, MakeDate, TimeClip).
\<close>

definition msPerDay :: int where
  "msPerDay = 86400000"

definition maxTime :: int where
  "maxTime = 8640000000000000"

definition Day :: "int \<Rightarrow> int" where
  "Day t = t div msPerDay"

definition TimeWithinDay :: "int \<Rightarrow> int" where
  "TimeWithinDay t = t mod msPerDay"

definition DaysInYear :: "int \<Rightarrow> int" where
  "DaysInYear y =
     (if y mod 4 \<noteq> 0 then 365 else if y mod 100 \<noteq> 0 then 366
      else if y mod 400 \<noteq> 0 then 365 else 366)"

definition DayFromYear :: "int \<Rightarrow> int" where
  "DayFromYear y =
     365 * (y - 1970) + (y - 1969) div 4 - (y - 1901) div 100 + (y - 1601) div 400"

text \<open>
  \<open>YearFromTime(t)\<close> is the largest \<open>y\<close> with \<open>DayFromYear y \<le> Day t\<close>
  (\<open>YearFromDay_largest\<close> below). It is computed from the mean year of 146097/400 days,
  which is off by at most one.
\<close>

definition YearFromDay :: "int \<Rightarrow> int" where
  "YearFromDay d =
     (let y0 = 1970 + (400 * d) div 146097
      in if d < DayFromYear y0 then y0 - 1
         else if DayFromYear (y0 + 1) \<le> d then y0 + 1
         else y0)"

definition YearFromTime :: "int \<Rightarrow> int" where
  "YearFromTime t = YearFromDay (Day t)"

definition InLeapYear :: "int \<Rightarrow> int" where
  "InLeapYear t = (if DaysInYear (YearFromTime t) = 366 then 1 else 0)"

definition DayWithinYear :: "int \<Rightarrow> int" where
  "DayWithinYear t = Day t - DayFromYear (YearFromTime t)"

definition MonthFromTime :: "int \<Rightarrow> int" where
  "MonthFromTime t =
     (let d = DayWithinYear t; L = InLeapYear t
      in if d < 31 then 0
         else if d < 59 + L then 1
         else if d < 90 + L then 2
         else if d < 120 + L then 3
         else if d < 151 + L then 4
         else if d < 181 + L then 5
         else if d < 212 + L then 6
         else if d < 243 + L then 7
         else if d < 273 + L then 8
         else if d < 304 + L then 9
         else if d < 334 + L then 10
         else 11)"

definition DateFromTime :: "int \<Rightarrow> int" where
  "DateFromTime t =
     (let d = DayWithinYear t; L = InLeapYear t; m = MonthFromTime t
      in if m = 0 then d + 1
         else if m = 1 then d - 30
         else if m = 2 then d - 58 - L
         else if m = 3 then d - 89 - L
         else if m = 4 then d - 119 - L
         else if m = 5 then d - 150 - L
         else if m = 6 then d - 180 - L
         else if m = 7 then d - 211 - L
         else if m = 8 then d - 242 - L
         else if m = 9 then d - 272 - L
         else if m = 10 then d - 303 - L
         else d - 333 - L)"

definition WeekDay :: "int \<Rightarrow> int" where
  "WeekDay t = (Day t + 4) mod 7"

definition TimeClip :: "int \<Rightarrow> number" where
  "TimeClip t = (if \<bar>t\<bar> > maxTime then None else Some t)"

definition monthStart :: "int \<Rightarrow> int \<Rightarrow> int" where
  \<comment> \<open>the day within a year of \<open>DaysInYear = 365 + L\<close> on which month \<open>mn\<close> (0 to 11) starts\<close>
  "monthStart L mn =
     (if mn = 0 then 0
      else if mn = 1 then 31
      else if mn = 2 then 59 + L
      else if mn = 3 then 90 + L
      else if mn = 4 then 120 + L
      else if mn = 5 then 151 + L
      else if mn = 6 then 181 + L
      else if mn = 7 then 212 + L
      else if mn = 8 then 243 + L
      else if mn = 9 then 273 + L
      else if mn = 10 then 304 + L
      else 334 + L)"

text \<open>
  \<open>MakeDay(year, month, date)\<close>: the day number of the first day of the month
  \<open>month mod 12\<close> of the year \<open>year + month div 12\<close>, plus \<open>date - 1\<close>; \<open>NaN\<close> when that
  first day has no time value (it lies beyond 100,000,000 days from the epoch).
\<close>

definition MakeDay :: "int \<Rightarrow> int \<Rightarrow> int \<Rightarrow> number" where
  "MakeDay year month date =
     (let ym = year + month div 12;
          mn = month mod 12;
          first = DayFromYear ym + monthStart (DaysInYear ym - 365) mn
      in if \<bar>first\<bar> \<le> 100000000 then Some (first + date - 1) else None)"

definition MakeDate :: "number \<Rightarrow> int \<Rightarrow> number" where
  "MakeDate day time = (case day of None \<Rightarrow> None | Some d \<Rightarrow> Some (d * msPerDay + time))"

text \<open>
  The host. \<open>LocalTZA t isUTC\<close> is the local time zone adjustment of ECMAScript, in
  milliseconds: for \<open>isUTC\<close>, the offset of local time from UTC at the time value \<open>t\<close>;
  otherwise the offset by which the local time \<open>t\<close> is read, which for a local time
  that a clock change skips or repeats is the offset before the change. It varies
  with daylight saving time and with the history of the zone. \<open>parseOther\<close> is what
  \<open>Date.parse\<close> makes of a string that is not a date-only ISO literal (other ISO forms
  and the engine's own formats).
\<close>

record host =
  LocalTZA :: "int \<Rightarrow> bool \<Rightarrow> int"
  parseOther :: "string \<Rightarrow> number"

definition LocalTime :: "host \<Rightarrow> int \<Rightarrow> int" where
  "LocalTime h t = t + LocalTZA h t True"

definition UTC :: "host \<Rightarrow> int \<Rightarrow> int" where
  "UTC h t = t - LocalTZA h t False"

type_synonym Date = number

definition getFullYear :: "host \<Rightarrow> Date \<Rightarrow> number" where
  "getFullYear h d = map_option (\<lambda>t. YearFromTime (LocalTime h t)) d"

definition getMonth :: "host \<Rightarrow> Date \<Rightarrow> number" where
  "getMonth h d = map_option (\<lambda>t. MonthFromTime (LocalTime h t)) d"

definition getDate :: "host \<Rightarrow> Date \<Rightarrow> number" where
  "getDate h d = map_option (\<lambda>t. DateFromTime (LocalTime h t)) d"

definition getDay :: "host \<Rightarrow> Date \<Rightarrow> number" where
  "getDay h d = map_option (\<lambda>t. WeekDay (LocalTime h t)) d"

definition getTime :: "Date \<Rightarrow> number" where
  "getTime d = d"

text \<open>\<open>d.setDate(dt)\<close>: the new time value, which is also stored in \<open>d\<close>.\<close>

definition setDate :: "host \<Rightarrow> Date \<Rightarrow> number \<Rightarrow> number" where
  "setDate h d dt =
     (case d of None \<Rightarrow> None
      | Some t0 \<Rightarrow>
          (case dt of None \<Rightarrow> None
           | Some k \<Rightarrow>
               (let t = LocalTime h t0 in
                case MakeDate (MakeDay (YearFromTime t) (MonthFromTime t) k) (TimeWithinDay t) of
                  None \<Rightarrow> None
                | Some newDate \<Rightarrow> TimeClip (UTC h newDate))))"

text \<open>\<open>new Date(value)\<close> for a number, and \<open>new Date(year, month, date)\<close> in local time.\<close>

definition Date_of_number :: "number \<Rightarrow> Date" where
  "Date_of_number v = (case v of None \<Rightarrow> None | Some t \<Rightarrow> TimeClip t)"

definition Date_of_fields :: "host \<Rightarrow> number \<Rightarrow> number \<Rightarrow> number \<Rightarrow> Date" where
  "Date_of_fields h year month date =
     (case year of None \<Rightarrow> None
      | Some y \<Rightarrow>
          (case month of None \<Rightarrow> None
           | Some m \<Rightarrow>
               (case date of None \<Rightarrow> None
                | Some dt \<Rightarrow>
                    (let yr = (if 0 \<le> y \<and> y \<le> 99 then 1900 + y else y) in
                     case MakeDate (MakeDay yr m dt) 0 of
                       None \<Rightarrow> None
                     | Some finalDate \<Rightarrow> TimeClip (UTC h finalDate)))))"

text \<open>
  \<open>new Date(string)\<close>. A date-only literal \<open>YYYY-MM-DD\<close> naming a day of the calendar is
  read as midnight UTC of that day (ECMAScript, Date Time String Format); every other
  string is left to the host.
\<close>

definition isDigit :: "char \<Rightarrow> bool" where
  "isDigit c \<longleftrightarrow> digit_of 10 c \<noteq> None"

definition DaysInMonth :: "int \<Rightarrow> int \<Rightarrow> int" where
  \<comment> \<open>the days of month \<open>m\<close> (1 to 12) of year \<open>y\<close>\<close>
  "DaysInMonth y m =
     (if m = 2 then DaysInYear y - 337
      else if m = 4 \<or> m = 6 \<or> m = 9 \<or> m = 11 then 30
      else 31)"

definition iso_date_only :: "string \<Rightarrow> (int \<times> int \<times> int) option" where
  "iso_date_only s =
     (if length s = 10 \<and> s ! 4 = CHR ''-'' \<and> s ! 7 = CHR ''-''
         \<and> list_all isDigit (take 4 s) \<and> list_all isDigit (take 2 (drop 5 s))
         \<and> list_all isDigit (drop 8 s)
      then Some (radix_value 10 (take 4 s), radix_value 10 (take 2 (drop 5 s)),
                 radix_value 10 (drop 8 s))
      else None)"

definition Date_parse :: "host \<Rightarrow> string \<Rightarrow> number" where
  "Date_parse h s =
     (case iso_date_only s of
        None \<Rightarrow> parseOther h s
      | Some (y, m, d) \<Rightarrow>
          if 1 \<le> m \<and> m \<le> 12 \<and> 1 \<le> d \<and> d \<le> DaysInMonth y m
          then MakeDate (MakeDay y (m - 1) d) 0
          else parseOther h s)"

definition Date_of_string :: "host \<Rightarrow> string option \<Rightarrow> Date" where
  "Date_of_string h v =
     (case v of None \<Rightarrow> None
      | Some s \<Rightarrow> Date_of_number (Date_parse h s))"

section \<open>The query language (HQL)\<close>

datatype error = Error string | TypeError string

datatype QueryType = SUMMARY | LIST

type_synonym ISODate = string

record HarvestQuery =
  qtype :: QueryType
  qfrom :: ISODate
  qto :: ISODate

record range =
  range_from :: ISODate
  range_to :: ISODate

text \<open>
  \<open>formatDate\<close> of \<open>parseTimeRange\<close>: the local year as \<open>toString\<close> gives it, and month
  and day padded to two characters. An invalid date gives \<open>NaN-NaN-NaN\<close>.
\<close>

definition formatDate :: "host \<Rightarrow> Date \<Rightarrow> ISODate" where
  "formatDate h date =
     (let year = getFullYear h date;
          month = padStart2 (Number_toString (num_add (getMonth h date) (Some 1)));
          day = padStart2 (Number_toString (getDate h date))
      in Number_toString year @ ''-'' @ month @ ''-'' @ day)"

text \<open>
  \<open>parseTimeRange\<close>, in two steps as the source has them: the \<open>switch\<close> that computes the
  dates \<open>from\<close> and \<open>to\<close> (\<open>parseTimeRange_dates\<close>), and the \<open>return\<close> that formats them.
  The function reads the clock twice: \<open>now\<close> is the time value of \<open>today = new Date()\<close>
  in its first line, and \<open>now2\<close> that of the \<open>new Date()\<close> in the branch \<open>PAST\<close>, which
  is read later.
\<close>

definition parseTimeRange_dates :: "host \<Rightarrow> int \<Rightarrow> int \<Rightarrow> string list \<Rightarrow> error + (Date \<times> Date)" where
  "parseTimeRange_dates h now now2 tokens =
     (let today = Date_of_number (Some now) in
      if index tokens 0 = Some ''TODAY'' then Inr (today, today)
      else if index tokens 0 = Some ''WEEK'' then
        (let dayOfWeek = getDay h today;
             firstDayOfWeek = Date_of_number (setDate h today
                (num_add (num_sub (getDate h today) dayOfWeek)
                   (if dayOfWeek = Some 0 then Some (- 6) else Some 1)))
         in Inr (firstDayOfWeek,
                 Date_of_number (setDate h (Date_of_number (getTime firstDayOfWeek))
                    (num_add (getDate h firstDayOfWeek) (Some 6)))))
      else if index tokens 0 = Some ''MONTH'' then
        Inr (Date_of_fields h (getFullYear h today) (getMonth h today) (Some 1),
             Date_of_fields h (getFullYear h today) (num_add (getMonth h today) (Some 1)) (Some 0))
      else if index tokens 0 = Some ''PAST'' then
        (let count = parseInt (ToString (index tokens 1)) in
         if isNaN count \<or> index tokens 2 \<noteq> Some ''DAYS''
         then Inl (Error ''Invalid PAST format. Use 'PAST <number> DAYS'.'')
         else Inr (Date_of_number (setDate h (Date_of_number (Some now2))
                      (num_sub (getDate h today) (num_sub count (Some 1)))),
                   today))
      else if index tokens 0 = Some ''FROM'' then
        (if length tokens < 4 \<or> index tokens 2 \<noteq> Some ''TO''
         then Inl (Error ''Invalid FROM...TO format.'')
         else
           (let from = Date_of_string h (index tokens 1);
                to = Date_of_string h (index tokens 3)
            in if isNaN (getTime from) \<or> isNaN (getTime to)
               then Inl (Error ''Invalid date format in FROM...TO. Use YYYY-MM-DD.'')
               else Inr (from, to)))
      else Inl (Error (''Unknown time range specifier: '' @ ToString (index tokens 0))))"

definition parseTimeRange :: "host \<Rightarrow> int \<Rightarrow> int \<Rightarrow> string list \<Rightarrow> error + range" where
  "parseTimeRange h now now2 tokens =
     (case parseTimeRange_dates h now now2 tokens of
        Inl e \<Rightarrow> Inl e
      | Inr (from, to) \<Rightarrow> Inr \<lparr>range_from = formatDate h from, range_to = formatDate h to\<rparr>)"

definition tokenize :: "string \<Rightarrow> string list" where
  \<comment> \<open>\<open>source.trim().split(/\s+/).map(t => t.toUpperCase())\<close>\<close>
  "tokenize source = map toUpperCase (split_ws (trim source))"

definition parseQuery :: "host \<Rightarrow> int \<Rightarrow> int \<Rightarrow> string \<Rightarrow> error + HarvestQuery" where
  "parseQuery h now now2 source =
     (let tokens = tokenize source in
      if length tokens < 2 then Inl (Error ''Query is too short.'')
      else
        (let type = ToString (index tokens 0) in
         if type \<noteq> ''LIST'' \<and> type \<noteq> ''SUMMARY''
         then Inl (Error (''Invalid query type: '' @ type @ ''. Must be LIST or SUMMARY.''))
         else
           (case parseTimeRange h now now2 (drop 1 tokens) of
              Inl e \<Rightarrow> Inl e
            | Inr r \<Rightarrow>
                Inr \<lparr>qtype = (if type = ''LIST'' then LIST else SUMMARY),
                     qfrom = range_from r, qto = range_to r\<rparr>)))"

section \<open>Time entries and the report\<close>

subsection \<open>The numbers of the report\<close>

text \<open>
  The hours of an entry, and the sums and shares computed from them, are doubles. The
  model does not fix their arithmetic: it is a parameter. The type \<open>'n\<close> holds the
  numbers other than \<open>NaN\<close> (with \<open>-0\<close> and \<open>+0\<close> as one number, which the report never
  tells apart), in the order in which \<open><\<close> and \<open>>\<close> compare them; an operation gives
  \<open>None\<close> for \<open>NaN\<close>. The sign of the difference of two numbers, as the comparator of
  \<open>sort\<close> reads it, is their order.
\<close>

record 'n arith =
  fzero :: 'n  \<comment> \<open>the number \<open>0\<close>\<close>
  fhundred :: 'n  \<comment> \<open>the number \<open>100\<close>\<close>
  fadd :: "'n \<Rightarrow> 'n \<Rightarrow> 'n option"  \<comment> \<open>\<open>x + y\<close>\<close>
  fdiv :: "'n \<Rightarrow> 'n \<Rightarrow> 'n option"  \<comment> \<open>\<open>x / y\<close>, used for \<open>y > 0\<close> only\<close>
  fmul :: "'n \<Rightarrow> 'n \<Rightarrow> 'n option"  \<comment> \<open>\<open>x * y\<close>\<close>

definition fplus :: "'n arith \<Rightarrow> 'n option \<Rightarrow> 'n \<Rightarrow> 'n option" where
  \<comment> \<open>\<open>a + x\<close> where \<open>a\<close> may be \<open>NaN\<close>\<close>
  "fplus ar a x = (case a of None \<Rightarrow> None | Some y \<Rightarrow> fadd ar y x)"

text \<open>
  The fields of a time entry that the report reads. The hours of an entry are a number
  other than \<open>NaN\<close>: they are read from JSON, which has no \<open>NaN\<close>.
\<close>

record HarvestProject =
  project_id :: int
  project_name :: string

record HarvestTask =
  task_id :: int
  task_name :: string

record 'n HarvestTimeEntry =
  entry_id :: int
  spent_date :: string
  hours :: 'n
  project :: HarvestProject
  task :: HarvestTask

text \<open>
  What is displayed. A label is a list of pieces: text, or a number that the plugin
  prints with \<open>toFixed(2)\<close>.
\<close>

datatype 'n piece = Lit string | Fixed2 'n

record 'n bar =
  bar_width :: "'n option"  \<comment> \<open>the percentage of \<open>--bar-width\<close>; \<open>None\<close> is \<open>NaN\<close>\<close>
  bar_color :: string
  bar_title :: "'n piece list"

record 'n legend_item =
  swatch_color :: string
  legend_label :: "'n piece list"

datatype 'n report =
    NoEntries string
  | ListTable "string list" "'n piece list list"
  | Summary string "'n piece list" "'n bar list" "'n legend_item list"

subsection \<open>\<open>projectTotals\<close>: a JavaScript object used as a dictionary\<close>

text \<open>
  \<open>projectTotals\<close> is created as \<open>{}\<close>. Its own properties are kept in creation order.
  Reading \<open>projectTotals[name]\<close> finds an own property, else a member that \<open>{}\<close>
  inherits from \<open>Object.prototype\<close> (a function, or for \<open>__proto__\<close> the prototype
  itself), else \<open>undefined\<close>. A value is \<open>undefined\<close>, a number (\<open>None\<close> is \<open>NaN\<close>), or
  something else: an inherited member, or the string that \<open>+=\<close> makes of one.
\<close>

datatype 'n jsval = Undefined | Number "'n option" | Other

type_synonym 'n object = "(string \<times> 'n jsval) list"

definition inherited :: "string list" where
  "inherited =
     [''__proto__'', ''constructor'', ''hasOwnProperty'', ''isPrototypeOf'',
      ''propertyIsEnumerable'', ''toLocaleString'', ''toString'', ''valueOf'',
      ''__defineGetter__'', ''__defineSetter__'', ''__lookupGetter__'', ''__lookupSetter__'']"

definition Get :: "'n object \<Rightarrow> string \<Rightarrow> 'n jsval" where
  "Get obj k =
     (case map_of obj k of
        Some v \<Rightarrow> v
      | None \<Rightarrow> if k \<in> set inherited then Other else Undefined)"

text \<open>
  \<open>projectTotals[k] = v\<close>: an own property is updated in place or created last. For
  \<open>__proto__\<close> the assignment calls the inherited setter, which ignores a value that
  is not an object.
\<close>

definition Put :: "'n object \<Rightarrow> string \<Rightarrow> 'n jsval \<Rightarrow> 'n object" where
  "Put obj k v = (if k = ''__proto__'' then obj else AList.update k v obj)"

definition truthy :: "'n arith \<Rightarrow> 'n jsval \<Rightarrow> bool" where
  "truthy ar v =
     (case v of Undefined \<Rightarrow> False | Number a \<Rightarrow> a \<noteq> None \<and> a \<noteq> Some (fzero ar)
      | Other \<Rightarrow> True)"

definition js_add :: "'n arith \<Rightarrow> 'n jsval \<Rightarrow> 'n \<Rightarrow> 'n jsval" where
  \<comment> \<open>\<open>v + x\<close> for a number \<open>x\<close>: a sum of numbers, else \<open>NaN\<close> or a string\<close>
  "js_add ar v x =
     (case v of Undefined \<Rightarrow> Number None | Number a \<Rightarrow> Number (fplus ar a x) | Other \<Rightarrow> Other)"

text \<open>
  \<open>Object.keys\<close>: the own keys that are array indices (canonical numerals below
  \<open>2^32 - 1\<close>) in ascending order, then the other keys in creation order.
\<close>

definition arrayIndex :: "string \<Rightarrow> int option" where
  "arrayIndex k =
     (if k \<noteq> [] \<and> list_all isDigit k \<and> (k = ''0'' \<or> take 1 k \<noteq> ''0'')
         \<and> radix_value 10 k < 4294967295
      then Some (radix_value 10 k) else None)"

definition Object_keys :: "'n object \<Rightarrow> string list" where
  "Object_keys obj =
     sort_key (\<lambda>k. case arrayIndex k of None \<Rightarrow> 0 | Some n \<Rightarrow> n)
        (filter (\<lambda>k. arrayIndex k \<noteq> None) (map fst obj))
     @ filter (\<lambda>k. arrayIndex k = None) (map fst obj)"

subsection \<open>\<open>renderList\<close> and \<open>renderSummary\<close>\<close>

definition renderList :: "'n HarvestTimeEntry list \<Rightarrow> 'n report" where
  "renderList entries =
     ListTable [''Project'', ''Task'', ''Date'', ''Hours'']
       (map (\<lambda>entry. [Lit (project_name (project entry)), Lit (task_name (task entry)),
                       Lit (spent_date entry), Fixed2 (hours entry)]) entries)"

text \<open>The first loop of \<open>renderSummary\<close>: one step for one entry, on \<open>(totalHours, projectTotals)\<close>.\<close>

definition addEntry ::
  "'n arith \<Rightarrow> 'n option \<times> 'n object \<Rightarrow> 'n HarvestTimeEntry \<Rightarrow> 'n option \<times> 'n object" where
  "addEntry ar acc entry =
     (let totalHours = fplus ar (fst acc) (hours entry);
          projectName = project_name (project entry);
          pt = (if \<not> truthy ar (Get (snd acc) projectName)
                then Put (snd acc) projectName (Number (Some (fzero ar))) else snd acc)
      in (totalHours, Put pt projectName (js_add ar (Get pt projectName) (hours entry))))"

definition summaryTotals :: "'n arith \<Rightarrow> 'n HarvestTimeEntry list \<Rightarrow> 'n option \<times> 'n object" where
  "summaryTotals ar entries = foldl (addEntry ar) (Some (fzero ar), []) entries"

definition colors :: "string list" where
  "colors = [''#84b65a'', ''#c25956'', ''#59a7c2'', ''#c29b59'', ''#8e59c2'', ''#c2598e'', ''#5ac28a'']"

text \<open>
  \<open>sort\<close> with the comparator \<open>(a, b) => key b - key a\<close>: the stable sort by descending
  key, here by insertion.
\<close>

fun insertDesc :: "('a \<Rightarrow> 'k::linorder) \<Rightarrow> 'a \<Rightarrow> 'a list \<Rightarrow> 'a list" where
  "insertDesc f x [] = [x]"
| "insertDesc f x (y # ys) = (if f y \<le> f x then x # y # ys else y # insertDesc f x ys)"

definition sortDesc :: "('a \<Rightarrow> 'k::linorder) \<Rightarrow> 'a list \<Rightarrow> 'a list" where
  "sortDesc f xs = foldr (insertDesc f) xs []"

text \<open>
  \<open>Object.keys(projectTotals).sort((a, b) => projectTotals[b] - projectTotals[a])\<close>.
  Where a total is not a number the comparator yields \<open>NaN\<close> and the order is the
  engine's choice; the key \<open>0\<close> stands for one such choice. For a total that is not a
  number at all, the loop that follows throws whatever the order.
\<close>

definition sortKey :: "'n arith \<Rightarrow> 'n object \<Rightarrow> string \<Rightarrow> 'n" where
  "sortKey ar obj k = (case Get obj k of Number (Some x) \<Rightarrow> x | _ \<Rightarrow> fzero ar)"

definition sortedProjects :: "'n::linorder arith \<Rightarrow> 'n object \<Rightarrow> string list" where
  "sortedProjects ar projectTotals = sortDesc (sortKey ar projectTotals) (Object_keys projectTotals)"

definition percentage :: "'n::linorder arith \<Rightarrow> 'n option \<Rightarrow> 'n jsval \<Rightarrow> 'n option" where
  \<comment> \<open>\<open>totalHours > 0 ? (projectHours / totalHours) * 100 : 0\<close>\<close>
  "percentage ar totalHours projectHours =
     (case totalHours of
        None \<Rightarrow> Some (fzero ar)
      | Some t \<Rightarrow>
          if fzero ar < t
          then (case projectHours of
                  Number (Some x) \<Rightarrow>
                    (case fdiv ar x t of None \<Rightarrow> None | Some q \<Rightarrow> fmul ar q (fhundred ar))
                | _ \<Rightarrow> None)
          else Some (fzero ar))"

definition toFixed2 :: "'n jsval \<Rightarrow> error + 'n piece" where
  \<comment> \<open>\<open>projectHours.toFixed(2)\<close>: only a number has the method\<close>
  "toFixed2 v =
     (case v of
        Number (Some x) \<Rightarrow> Inr (Fixed2 x)
      | Number None \<Rightarrow> Inr (Lit ''NaN'')
      | Undefined \<Rightarrow> Inl (TypeError ''Cannot read properties of undefined (reading 'toFixed')'')
      | Other \<Rightarrow> Inl (TypeError ''projectHours.toFixed is not a function''))"

fun barChart ::
  "'n::linorder arith \<Rightarrow> 'n option \<Rightarrow> 'n object \<Rightarrow> nat \<Rightarrow> string list \<Rightarrow> error + 'n bar list" where
  "barChart ar totalHours projectTotals colorIndex [] = Inr []"
| "barChart ar totalHours projectTotals colorIndex (projectName # rest) =
     (case toFixed2 (Get projectTotals projectName) of
        Inl e \<Rightarrow> Inl e
      | Inr label \<Rightarrow>
          (case barChart ar totalHours projectTotals (colorIndex + 1) rest of
             Inl e \<Rightarrow> Inl e
           | Inr bars \<Rightarrow>
               Inr (\<lparr>bar_width = percentage ar totalHours (Get projectTotals projectName),
                     bar_color = colors ! (colorIndex mod length colors),
                     bar_title = [Lit projectName, Lit '': '', label, Lit '' hours'']\<rparr> # bars)))"

fun legend :: "'n object \<Rightarrow> nat \<Rightarrow> string list \<Rightarrow> error + 'n legend_item list" where
  "legend projectTotals colorIndex [] = Inr []"
| "legend projectTotals colorIndex (projectName # rest) =
     (case toFixed2 (Get projectTotals projectName) of
        Inl e \<Rightarrow> Inl e
      | Inr label \<Rightarrow>
          (case legend projectTotals (colorIndex + 1) rest of
             Inl e \<Rightarrow> Inl e
           | Inr items \<Rightarrow>
               Inr (\<lparr>swatch_color = colors ! (colorIndex mod length colors),
                     legend_label = [Lit projectName, Lit '': '', label, Lit '' hours'']\<rparr> # items)))"

definition renderSummary :: "'n::linorder arith \<Rightarrow> 'n HarvestTimeEntry list \<Rightarrow> error + 'n report" where
  "renderSummary ar entries =
     (let totalHours = fst (summaryTotals ar entries);
          projectTotals = snd (summaryTotals ar entries);
          total = (case totalHours of None \<Rightarrow> Lit ''NaN'' | Some t \<Rightarrow> Fixed2 t)
      in case barChart ar totalHours projectTotals 0 (sortedProjects ar projectTotals) of
           Inl e \<Rightarrow> Inl e
         | Inr bars \<Rightarrow>
             (case legend projectTotals 0 (sortedProjects ar projectTotals) of
                Inl e \<Rightarrow> Inl e
              | Inr items \<Rightarrow>
                  Inr (Summary ''Time summary'' [Lit ''Total hours: '', total] bars items)))"

definition renderReport ::
  "'n::linorder arith \<Rightarrow> 'n HarvestTimeEntry list \<Rightarrow> HarvestQuery \<Rightarrow> error + 'n report" where
  "renderReport ar entries query =
     (if length entries = 0 then Inr (NoEntries ''No time entries found for the selected period.'')
      else if qtype query = LIST then Inr (renderList entries)
      else renderSummary ar entries)"

section \<open>The query executor\<close>

text \<open>
  The plugin as \<open>getTimeEntries\<close> sees it: the id of the current user (\<open>null\<close> until it
  was fetched) and the answer of \<open>request\<close> to an endpoint, \<open>null\<close> when the credentials
  are missing, the service answers with an error status, or the connection fails.
\<close>

record 'n HarvestTimeEntriesResponse =
  time_entries :: "'n HarvestTimeEntry list"

record 'n plugin =
  userId :: "int option"
  request :: "string \<Rightarrow> 'n HarvestTimeEntriesResponse option"

definition getTimeEntries :: "'n plugin \<Rightarrow> HarvestQuery \<Rightarrow> 'n HarvestTimeEntry list" where
  "getTimeEntries p query =
     (if userId p = None \<or> userId p = Some 0 then []
      else
        (let endpoint = ''/time_entries?from='' @ qfrom query @ ''&to='' @ qto query
                          @ ''&user_id='' @ Number_toString (userId p)
         in case request p endpoint of
              Some data \<Rightarrow> time_entries data
            | None \<Rightarrow> []))"

text \<open>An array is an object: \<open>if (entries)\<close> holds for every array, the empty one included.\<close>

definition truthy_array :: "'a list \<Rightarrow> bool" where
  "truthy_array xs = True"

text \<open>
  The block as the processor finds it: the file of the note as lines (\<open>None\<close> when the
  path is not a file) and the lines of the block (\<open>None\<close> when the section cannot be
  read). The outcome is what the block's element shows and, for a static query, the
  lines written back; the markup of the frozen report is kept as the query text and the
  report it was rendered from.
\<close>

datatype 'n line = Line string | StaticContainer string "'n report"

record 'n ctx =
  fileLines :: "'n line list option"
  sectionInfo :: "(nat \<times> nat) option"

datatype 'n display = Text string | Rendered "'n report"

record 'n outcome =
  shown :: "'n display"
  written :: "'n line list option"

definition failed :: "error \<Rightarrow> 'n outcome" where
  \<comment> \<open>the \<open>catch\<close> of the processor\<close>
  "failed e =
     (case e of
        Error m \<Rightarrow> \<lparr>shown = Text (''Error processing Harvest query: '' @ m), written = None\<rparr>
      | TypeError m \<Rightarrow> \<lparr>shown = Text (''Error processing Harvest query: '' @ m), written = None\<rparr>)"

definition hqlProcessor ::
  "'n::linorder arith \<Rightarrow> host \<Rightarrow> int \<Rightarrow> int \<Rightarrow> 'n plugin \<Rightarrow> 'n ctx \<Rightarrow> string \<Rightarrow> 'n outcome" where
  "hqlProcessor ar h now now2 p c source =
     (let hasStaticFlag = str_includes source ''--static'';
          querySource = trim (str_replace source ''--static'' [])
      in case parseQuery h now now2 querySource of
           Inl e \<Rightarrow> failed e
         | Inr query \<Rightarrow>
             (let entries = getTimeEntries p query in
              if hasStaticFlag then
                (if \<not> truthy_array entries
                 then \<lparr>shown = Text ''Failed to fetch Harvest report.'', written = None\<rparr>
                 else
                   (case renderReport ar entries query of
                      Inl e \<Rightarrow> failed e
                    | Inr reportHTML \<Rightarrow>
                        (case fileLines c of
                           None \<Rightarrow> \<lparr>shown = Text ''Error: Could not find file to write static report.'',
                                     written = None\<rparr>
                         | Some lines \<Rightarrow>
                             (case sectionInfo c of
                                None \<Rightarrow> \<lparr>shown = Text ''Error: Could not read file section to write static report.'',
                                          written = None\<rparr>
                              | Some (lineStart, lineEnd) \<Rightarrow>
                                  \<lparr>shown = Text ''Loading static Harvest report...'',
                                   written = Some (take lineStart lines
                                                    @ [StaticContainer source reportHTML]
                                                    @ drop (lineEnd + 1) lines)\<rparr>))))
              else
                (if truthy_array entries
                 then (case renderReport ar entries query of
                         Inl e \<Rightarrow> failed e
                       | Inr rep \<Rightarrow> \<lparr>shown = Rendered rep, written = None\<rparr>)
                 else \<lparr>shown = Text ''Failed to fetch Harvest report.'', written = None\<rparr>)))"

section \<open>Vocabulary of the claims\<close>

text \<open>
  The calendar day that a date string names, read back from the form that \<open>formatDate\<close>
  writes: a year (with a minus sign when negative), a month and a day of that month,
  separated by \<open>-\<close>. The day is counted from 1 January 1970. A string that names no day,
  such as \<open>NaN-NaN-NaN\<close>, gives \<open>None\<close>.
\<close>

definition readISODate :: "ISODate \<Rightarrow> (int \<times> int \<times> int) option" where
  "readISODate s =
     (let neg = (take 1 s = ''-'');
          body = (if neg then drop 1 s else s);
          ys = takeWhile isDigit body;
          r1 = dropWhile isDigit body;
          ms = takeWhile isDigit (drop 1 r1);
          r2 = dropWhile isDigit (drop 1 r1);
          ds = drop 1 r2
      in if ys \<noteq> [] \<and> take 1 r1 = ''-'' \<and> ms \<noteq> [] \<and> take 1 r2 = ''-''
            \<and> ds \<noteq> [] \<and> list_all isDigit ds
         then Some ((if neg then - 1 else 1) * radix_value 10 ys, radix_value 10 ms,
                    radix_value 10 ds)
         else None)"

definition civilDay :: "int \<Rightarrow> int \<Rightarrow> int \<Rightarrow> int" where
  \<comment> \<open>the day number of day \<open>d\<close> of month \<open>m\<close> (1 to 12) of year \<open>y\<close>\<close>
  "civilDay y m d = DayFromYear y + monthStart (DaysInYear y - 365) (m - 1) + d - 1"

definition calendarDay :: "ISODate \<Rightarrow> int option" where
  "calendarDay s =
     (case readISODate s of
        None \<Rightarrow> None
      | Some (y, m, d) \<Rightarrow>
          if 1 \<le> m \<and> m \<le> 12 \<and> 1 \<le> d \<and> d \<le> DaysInMonth y m
          then Some (civilDay y m d)
          else None)"

definition calendar_le :: "ISODate \<Rightarrow> ISODate \<Rightarrow> bool" where
  "calendar_le a b =
     (case calendarDay a of
        None \<Rightarrow> False
      | Some x \<Rightarrow> (case calendarDay b of None \<Rightarrow> False | Some y \<Rightarrow> x \<le> y))"

text \<open>
  The day that a date-only literal \<open>YYYY-MM-DD\<close> names, counted from 1 January 1970;
  \<open>None\<close> for a string that is no such literal or names no day of the calendar.
\<close>

definition literalDay :: "string \<Rightarrow> int option" where
  "literalDay s =
     (case iso_date_only s of
        None \<Rightarrow> None
      | Some (y, m, d) \<Rightarrow>
          if 1 \<le> m \<and> m \<le> 12 \<and> 1 \<le> d \<and> d \<le> DaysInMonth y m
          then Some (civilDay y m d)
          else None)"

text \<open>The local calendar day of a time value.\<close>

definition localDay :: "host \<Rightarrow> int \<Rightarrow> int" where
  "localDay h t = Day (LocalTime h t)"

text \<open>
  A reading of the clock: every offset of the zone is at most a day, and the time lies
  at least 40 days inside the range of \<open>Date\<close>, which ends in the years -271821 and
  275760.
\<close>

definition clock_reading :: "host \<Rightarrow> int \<Rightarrow> bool" where
  "clock_reading h now \<longleftrightarrow>
     (\<forall>t isUTC. \<bar>LocalTZA h t isUTC\<bar> \<le> msPerDay) \<and> \<bar>now\<bar> \<le> maxTime - 40 * msPerDay"

text \<open>
  The local time that the clock shows at the instant that the local time \<open>t\<close> is read
  as. It is \<open>t\<close> itself, but for a local time that a change of the clock skips: that is
  read with the offset before the change, and the clock then shows a later time. The
  day is kept when that time is on the day of \<open>t\<close>: it is not kept only where the time
  skipped is carried past midnight.
\<close>

definition shown_for :: "host \<Rightarrow> int \<Rightarrow> int" where
  "shown_for h t = LocalTime h (UTC h t)"

definition day_kept :: "host \<Rightarrow> int \<Rightarrow> bool" where
  "day_kept h t \<longleftrightarrow> Day (shown_for h t) = Day t"

text \<open>
  The local time of day of \<open>now\<close> on the Monday of the week, Monday to Sunday, that
  holds \<open>now\<close>; and the local time of day of \<open>now2\<close> on the day \<open>k\<close> days before the day
  of \<open>now\<close>.
\<close>

definition mondayOf :: "host \<Rightarrow> int \<Rightarrow> int" where
  "mondayOf h now = LocalTime h now - ((WeekDay (LocalTime h now) + 6) mod 7) * msPerDay"

definition daysBefore :: "host \<Rightarrow> int \<Rightarrow> int \<Rightarrow> int \<Rightarrow> int" where
  "daysBefore h now now2 k = (localDay h now - k) * msPerDay + TimeWithinDay (LocalTime h now2)"

text \<open>From the instant \<open>t\<close> to the instant \<open>t'\<close> the offset of the zone falls by a day at most.\<close>

definition steady :: "host \<Rightarrow> int \<Rightarrow> int \<Rightarrow> bool" where
  "steady h t t' \<longleftrightarrow> LocalTZA h t True \<le> LocalTZA h t' True + msPerDay"

text \<open>Two readings of the clock in one local month.\<close>

definition same_month :: "host \<Rightarrow> int \<Rightarrow> int \<Rightarrow> bool" where
  "same_month h now now2 \<longleftrightarrow>
     YearFromTime (LocalTime h now) = YearFromTime (LocalTime h now2)
     \<and> MonthFromTime (LocalTime h now) = MonthFromTime (LocalTime h now2)"

text \<open>
  A zone whose offset from UTC is \<open>before\<close> until the instant \<open>T\<close> and \<open>after\<close> from then
  on. A local time that the change skips or repeats is read with \<open>before\<close>.
\<close>

definition clockChange :: "int \<Rightarrow> int \<Rightarrow> int \<Rightarrow> host" where
  "clockChange T before after =
     \<lparr>LocalTZA = (\<lambda>t isUTC. if (if isUTC then t < T else t < T + max before after)
                             then before else after),
      parseOther = (\<lambda>s. None)\<rparr>"

text \<open>
  The arithmetic of the examples: real numbers with exact operations. The hours of the
  examples are whole and half hours, and every sum, quotient and product computed from
  them is a number that a double holds exactly, so that the arithmetic of doubles
  gives the same.
\<close>

definition exact :: "real arith" where
  "exact = \<lparr>fzero = 0, fhundred = 100, fadd = (\<lambda>x y. Some (x + y)),
            fdiv = (\<lambda>x y. Some (x / y)), fmul = (\<lambda>x y. Some (x * y))\<rparr>"

text \<open>
  The hours of one project as the loop adds them: from \<open>0\<close>, the hours of the entries
  of the project in their order, starting again from \<open>0\<close> after a sum that is \<open>NaN\<close>.
\<close>

definition projectHours :: "'n arith \<Rightarrow> 'n HarvestTimeEntry list \<Rightarrow> string \<Rightarrow> 'n option" where
  "projectHours ar entries name =
     foldl (\<lambda>a x. fadd ar (case a of None \<Rightarrow> fzero ar | Some y \<Rightarrow> y) x) (Some (fzero ar))
       (map hours (filter (\<lambda>e. project_name (project e) = name) entries))"

text \<open>The exact sum of the hours of one project.\<close>

definition hoursSum :: "real HarvestTimeEntry list \<Rightarrow> string \<Rightarrow> real" where
  "hoursSum entries name =
     sum_list (map hours (filter (\<lambda>e. project_name (project e) = name) entries))"

text \<open>An entry of \<open>h\<close> hours on the project \<open>name\<close>, for the examples.\<close>

definition timeEntry :: "string \<Rightarrow> 'n \<Rightarrow> 'n HarvestTimeEntry" where
  "timeEntry name h =
     \<lparr>entry_id = 0, spent_date = ''2025-11-05'', hours = h,
      project = \<lparr>project_id = 0, project_name = name\<rparr>,
      task = \<lparr>task_id = 0, task_name = ''Development''\<rparr>\<rparr>"

text \<open>
  The names of the projects of the entries, a list without its repetitions in the
  order of first occurrence, and the project that a bar of the chart stands for.
\<close>

definition projectNames :: "'n HarvestTimeEntry list \<Rightarrow> string list" where
  "projectNames entries = map (\<lambda>e. project_name (project e)) entries"

definition firstEncountered :: "'a list \<Rightarrow> 'a list" where
  "firstEncountered xs = rev (remdups (rev xs))"

text \<open>
  The order in which an object lists property names that were created in the order
  \<open>names\<close>: the array indices in ascending order, then the other names as created.
\<close>

definition propertyOrder :: "string list \<Rightarrow> string list" where
  "propertyOrder names =
     sort_key (\<lambda>k. case arrayIndex k of None \<Rightarrow> 0 | Some n \<Rightarrow> n)
        (filter (\<lambda>k. arrayIndex k \<noteq> None) names)
     @ filter (\<lambda>k. arrayIndex k = None) names"

definition bar_name :: "'n bar \<Rightarrow> string" where
  "bar_name b = (case bar_title b of Lit n # rest \<Rightarrow> n | _ \<Rightarrow> [])"

section \<open>The calendar\<close>

lemma div_lower: "0 < k \<Longrightarrow> k * (x div k) \<le> (x::int)"
  using pos_mod_sign [of k x] mult_div_mod_eq [of k x] by linarith

lemma div_upper: "0 < k \<Longrightarrow> (x::int) < k * (x div k) + k"
  using pos_mod_bound [of k x] mult_div_mod_eq [of k x] by linarith

lemma DayFromYear_expand:
  "400 * DayFromYear y =
     146000 * y - 287620000 + 400 * ((y - 1969) div 4) - 400 * ((y - 1901) div 100)
       + 400 * ((y - 1601) div 400)"
  unfolding DayFromYear_def by (simp add: algebra_simps)

lemma DayFromYear_lower: "146097 * y - 287811596 \<le> 400 * DayFromYear y"
proof -
  define a b c where "a = (y - 1969) div 4" and "b = (y - 1901) div 100" and "c = (y - 1601) div 400"
  have "y - 1969 < 4 * a + 4" "100 * b \<le> y - 1901" "y - 1601 < 400 * c + 400"
    unfolding a_def b_def c_def by (simp_all add: div_lower div_upper)
  then show ?thesis
    unfolding DayFromYear_expand a_def [symmetric] b_def [symmetric] c_def [symmetric] by linarith
qed

lemma DayFromYear_upper: "400 * DayFromYear y \<le> 146097 * y - 287810501"
proof -
  define a b c where "a = (y - 1969) div 4" and "b = (y - 1901) div 100" and "c = (y - 1601) div 400"
  have "4 * a \<le> y - 1969" "y - 1901 < 100 * b + 100" "400 * c \<le> y - 1601"
    unfolding a_def b_def c_def by (simp_all add: div_lower div_upper)
  then show ?thesis
    unfolding DayFromYear_expand a_def [symmetric] b_def [symmetric] c_def [symmetric] by linarith
qed

lemma YearFromDay_bounds:
  "DayFromYear (YearFromDay d) \<le> d \<and> d < DayFromYear (YearFromDay d + 1)"
proof -
  define q where "q = (400 * d) div 146097"
  define y0 where "y0 = 1970 + q"
  have "146097 * q \<le> 400 * d" "400 * d < 146097 * q + 146097"
    unfolding q_def by (simp_all add: div_lower div_upper)
  then have lo: "146097 * y0 - 287811090 \<le> 400 * d" and hi: "400 * d < 146097 * y0 - 287664993"
    unfolding y0_def by simp_all
  have a: "d < DayFromYear y0 \<Longrightarrow> DayFromYear (y0 - 1) \<le> d"
    using DayFromYear_upper [of "y0 - 1"] lo by (simp add: algebra_simps)
  have b: "DayFromYear (y0 + 1) \<le> d \<Longrightarrow> d < DayFromYear (y0 + 1 + 1)"
    using DayFromYear_lower [of "y0 + 1 + 1"] hi by (simp add: algebra_simps)
  show ?thesis
    unfolding YearFromDay_def Let_def q_def [symmetric] y0_def [symmetric]
    using a b by auto
qed

lemma div_succ:
  assumes "0 < (k::int)"
  shows "(x + 1) div k = x div k + (if (x + 1) mod k = 0 then 1 else 0)"
proof (cases "x mod k + 1 < k")
  case True
  have "x + 1 = k * (x div k) + (x mod k + 1)" by simp
  moreover have "0 \<le> x mod k + 1" using pos_mod_sign [OF assms, of x] by linarith
  ultimately have "(x + 1) div k = x div k" "(x + 1) mod k = x mod k + 1"
    using True int_div_pos_eq [of "x + 1" k "x div k" "x mod k + 1"]
      int_mod_pos_eq [of "x + 1" k "x div k" "x mod k + 1"] by auto
  then show ?thesis using pos_mod_sign [OF assms, of x] by simp
next
  case False
  then have e: "x mod k + 1 = k" using pos_mod_bound [OF assms, of x] by linarith
  have "k * (x div k + 1) = k * (x div k) + k" by (simp add: algebra_simps)
  then have "x + 1 = k * (x div k + 1) + 0" using e mult_div_mod_eq [of k x] by linarith
  then have "(x + 1) div k = x div k + 1" "(x + 1) mod k = 0"
    using assms int_div_pos_eq [of "x + 1" k "x div k + 1" 0]
      int_mod_pos_eq [of "x + 1" k "x div k + 1" 0] by auto
  then show ?thesis by simp
qed

lemma mod_sub_mult: "(y - k * c) mod k = y mod (k::int)"
  using mod_mult_self2 [of y k "- c"] by simp

lemma DayFromYear_step: "DayFromYear (y + 1) = DayFromYear y + DaysInYear y"
proof -
  have m4: "(y - 1969 + 1) mod 4 = 0 \<longleftrightarrow> y mod 4 = 0"
    using mod_sub_mult [of y 4 492] by simp
  have m100: "(y - 1901 + 1) mod 100 = 0 \<longleftrightarrow> y mod 100 = 0"
    using mod_sub_mult [of y 100 19] by simp
  have m400: "(y - 1601 + 1) mod 400 = 0 \<longleftrightarrow> y mod 400 = 0"
    using mod_sub_mult [of y 400 4] by simp
  have d4: "y mod 100 = 0 \<Longrightarrow> y mod 4 = 0"
    using dvd_trans [of 4 100 y] by (simp add: dvd_eq_mod_eq_0 [symmetric])
  have d100: "y mod 400 = 0 \<Longrightarrow> y mod 100 = 0"
    using dvd_trans [of 100 400 y] by (simp add: dvd_eq_mod_eq_0 [symmetric])
  have a: "(y + 1 - 1969) div 4 = (y - 1969) div 4 + (if y mod 4 = 0 then 1 else 0)"
    using div_succ [of 4 "y - 1969"] m4 by (simp add: algebra_simps)
  have b: "(y + 1 - 1901) div 100 = (y - 1901) div 100 + (if y mod 100 = 0 then 1 else 0)"
    using div_succ [of 100 "y - 1901"] m100 by (simp add: algebra_simps)
  have c: "(y + 1 - 1601) div 400 = (y - 1601) div 400 + (if y mod 400 = 0 then 1 else 0)"
    using div_succ [of 400 "y - 1601"] m400 by (simp add: algebra_simps)
  show ?thesis
    unfolding DayFromYear_def DaysInYear_def a b c
    using d4 d100 by auto
qed


lemma DaysInYear_cases: "DaysInYear y = 365 \<or> DaysInYear y = 366"
  by (simp add: DaysInYear_def)

lemma DayFromYear_mono: "y \<le> y' \<Longrightarrow> DayFromYear y \<le> DayFromYear y'"
proof (induction y' rule: int_ge_induct)
  case base
  show ?case by simp
next
  case (step i)
  then show ?case
    using DayFromYear_step [of i] DaysInYear_cases [of i] by linarith
qed

lemma YearFromDay_unique:
  assumes "DayFromYear y \<le> d" and "d < DayFromYear (y + 1)"
  shows "YearFromDay d = y"
proof (rule ccontr)
  assume ne: "YearFromDay d \<noteq> y"
  note b = YearFromDay_bounds [of d]
  show False
  proof (cases "YearFromDay d < y")
    case True
    then have "DayFromYear (YearFromDay d + 1) \<le> DayFromYear y"
      by (intro DayFromYear_mono) simp
    with assms b show False by linarith
  next
    case False
    with ne have "DayFromYear (y + 1) \<le> DayFromYear (YearFromDay d)"
      by (intro DayFromYear_mono) simp
    with assms b show False by linarith
  qed
qed

text \<open>\<open>YearFromDay d\<close> is the largest year that starts on or before day \<open>d\<close>.\<close>

lemma YearFromDay_largest:
  "DayFromYear (YearFromDay d) \<le> d" "DayFromYear y \<le> d \<Longrightarrow> y \<le> YearFromDay d"
proof -
  show "DayFromYear (YearFromDay d) \<le> d" using YearFromDay_bounds by simp
  show "y \<le> YearFromDay d" if "DayFromYear y \<le> d"
  proof (rule ccontr)
    assume "\<not> y \<le> YearFromDay d"
    then have "DayFromYear (YearFromDay d + 1) \<le> DayFromYear y"
      by (intro DayFromYear_mono) simp
    with that YearFromDay_bounds [of d] show False by linarith
  qed
qed

lemma month_chain:
  fixes d L :: int
  assumes "0 \<le> d" "d < 365 + L" "L = 0 \<or> L = 1"
  defines "m \<equiv> (if d < 31 then 0 else if d < 59 + L then 1 else if d < 90 + L then 2
      else if d < 120 + L then 3 else if d < 151 + L then 4 else if d < 181 + L then 5
      else if d < 212 + L then 6 else if d < 243 + L then 7 else if d < 273 + L then 8
      else if d < 304 + L then 9 else if d < 334 + L then 10 else (11::int))"
  shows "0 \<le> m \<and> m \<le> 11 \<and> monthStart L m \<le> d
       \<and> d < monthStart L m + (if m = 1 then 28 + L else if m = 3 \<or> m = 5 \<or> m = 8 \<or> m = 10 then 30 else 31)"
  using assms(1-3) unfolding m_def monthStart_def by auto

lemma date_chain:
  fixes d L m :: int
  assumes "0 \<le> m" "m \<le> 11"
  shows "(if m = 0 then d + 1 else if m = 1 then d - 30 else if m = 2 then d - 58 - L
      else if m = 3 then d - 89 - L else if m = 4 then d - 119 - L else if m = 5 then d - 150 - L
      else if m = 6 then d - 180 - L else if m = 7 then d - 211 - L else if m = 8 then d - 242 - L
      else if m = 9 then d - 272 - L else if m = 10 then d - 303 - L else d - 333 - L)
     = d - monthStart L m + 1"
  using assms unfolding monthStart_def by auto

lemma DayWithinYear_range:
  "0 \<le> DayWithinYear t" "DayWithinYear t < 365 + InLeapYear t" "InLeapYear t = 0 \<or> InLeapYear t = 1"
  "DaysInYear (YearFromTime t) = 365 + InLeapYear t"
  using YearFromDay_bounds [of "Day t"] DayFromYear_step [of "YearFromTime t"]
    DaysInYear_cases [of "YearFromTime t"]
  unfolding DayWithinYear_def InLeapYear_def YearFromTime_def by auto

text \<open>Every time value lies in a month of its year, on a day of that month.\<close>

lemma fields_valid:
  "0 \<le> MonthFromTime t" "MonthFromTime t \<le> 11" "1 \<le> DateFromTime t"
  "DateFromTime t \<le> DaysInMonth (YearFromTime t) (MonthFromTime t + 1)"
  "Day t = DayFromYear (YearFromTime t) + monthStart (InLeapYear t) (MonthFromTime t) + DateFromTime t - 1"
proof -
  note r = DayWithinYear_range [of t]
  note mc = month_chain [OF r(1) r(2) r(3), folded MonthFromTime_def [of t, unfolded Let_def]]
  have dt: "DateFromTime t = DayWithinYear t - monthStart (InLeapYear t) (MonthFromTime t) + 1"
    unfolding DateFromTime_def Let_def using date_chain [of "MonthFromTime t"] mc by simp
  show "0 \<le> MonthFromTime t" "MonthFromTime t \<le> 11" using mc by simp_all
  show "1 \<le> DateFromTime t" using mc dt by simp
  show "DateFromTime t \<le> DaysInMonth (YearFromTime t) (MonthFromTime t + 1)"
    using mc dt r(4) unfolding DaysInMonth_def by (auto split: if_splits)
  show "Day t = DayFromYear (YearFromTime t) + monthStart (InLeapYear t) (MonthFromTime t) + DateFromTime t - 1"
    using dt unfolding DayWithinYear_def by simp
qed



text \<open>Conversely, a day of a month of a year has exactly these fields.\<close>

lemma month_cases:
  fixes m :: int
  assumes "0 \<le> m" "m \<le> 11"
  shows "m = 0 \<or> m = 1 \<or> m = 2 \<or> m = 3 \<or> m = 4 \<or> m = 5 \<or> m = 6 \<or> m = 7 \<or> m = 8
      \<or> m = 9 \<or> m = 10 \<or> m = 11"
  using assms by presburger

lemma fields_of_day:
  assumes m: "0 \<le> m" "m \<le> 11" and dd: "1 \<le> dd" "dd \<le> DaysInMonth y (m + 1)"
    and day: "Day t = DayFromYear y + monthStart (DaysInYear y - 365) m + dd - 1"
  shows "YearFromTime t = y" "MonthFromTime t = m" "DateFromTime t = dd"
proof -
  define L where "L = DaysInYear y - 365"
  have L: "0 \<le> L" "L \<le> 1" using DaysInYear_cases [of y] by (auto simp: L_def)
  note mcases = month_cases [OF m]
  define d where "d = monthStart L m + dd - 1"
  have dim: "DaysInMonth y (m + 1) = (if m = 1 then 28 + L else if m = 3 \<or> m = 5 \<or> m = 8 \<or> m = 10 then 30 else 31)"
    unfolding DaysInMonth_def L_def by simp
  have d: "0 \<le> d \<and> d < 365 + L"
    using mcases dd L unfolding d_def dim monthStart_def by (elim disjE) simp_all
  have Y: "YearFromTime t = y"
    unfolding YearFromTime_def
    using d day DayFromYear_step [of y]
    by (intro YearFromDay_unique) (simp_all add: d_def L_def)
  then have dw: "DayWithinYear t = d" and il: "InLeapYear t = L"
    using day L by (auto simp: DayWithinYear_def InLeapYear_def d_def L_def)
  show "YearFromTime t = y" by (fact Y)
  show M: "MonthFromTime t = m"
    unfolding MonthFromTime_def Let_def dw il
    using mcases dd L unfolding d_def dim monthStart_def by (elim disjE) simp_all
  show "DateFromTime t = dd"
    using date_chain [OF m, of d L]
    unfolding DateFromTime_def Let_def dw il M d_def by simp
qed

lemma MakeDay_fields:
  assumes "\<bar>Day t - DateFromTime t + 1\<bar> \<le> 100000000"
  shows "MakeDay (YearFromTime t) (MonthFromTime t) k = Some (Day t - DateFromTime t + k)"
proof -
  note f = fields_valid [of t]
  have "MonthFromTime t div 12 = 0" "MonthFromTime t mod 12 = MonthFromTime t"
    using f(1,2) by simp_all
  moreover have "DaysInYear (YearFromTime t) - 365 = InLeapYear t"
    using DayWithinYear_range(4) [of t] by simp
  ultimately show ?thesis
    unfolding MakeDay_def Let_def using assms f(5) by simp
qed

lemma Day_split: "t = Day t * msPerDay + TimeWithinDay t"
  unfolding Day_def TimeWithinDay_def by simp

text \<open>\<open>setDate\<close> moves a date by whole days, and yields \<open>NaN\<close> beyond the range of \<open>Date\<close>.\<close>

lemma setDate_shift:
  assumes "\<bar>Day (LocalTime h t0) - DateFromTime (LocalTime h t0) + 1\<bar> \<le> 100000000"
  shows "setDate h (Some t0) (Some k)
           = TimeClip (UTC h (LocalTime h t0 + (k - DateFromTime (LocalTime h t0)) * msPerDay))"
proof -
  define t where "t = LocalTime h t0"
  have "(Day t - DateFromTime t + k) * msPerDay + TimeWithinDay t
          = t + (k - DateFromTime t) * msPerDay"
    using Day_split [of t] by (simp add: algebra_simps)
  then show ?thesis
    unfolding setDate_def Let_def t_def [symmetric]
    using MakeDay_fields [of t k] assms
    by (simp add: MakeDate_def t_def)
qed



section \<open>Numerals\<close>

lemma digit_cases:
  fixes d :: int
  assumes "0 \<le> d" "d \<le> 9"
  shows "d = 0 \<or> d = 1 \<or> d = 2 \<or> d = 3 \<or> d = 4 \<or> d = 5 \<or> d = 6 \<or> d = 7 \<or> d = 8 \<or> d = 9"
  using assms by presburger

lemma digit_of_digitChar:
  assumes "0 \<le> d" "d \<le> 9"
  shows "digit_of 10 (digitChar d) = Some d"
  using digit_cases [OF assms] by (elim disjE) (simp_all add: digitChar_def digit_of_def)

lemma radix_value_snoc:
  "radix_value R (Z @ [c]) = (case digit_of R c of None \<Rightarrow> radix_value R Z | Some d \<Rightarrow> radix_value R Z * R + d)"
  by (simp add: radix_value_def split: option.split)

lemma digits_sound:
  "0 \<le> n \<Longrightarrow> list_all isDigit (digits n) \<and> digits n \<noteq> [] \<and> radix_value 10 (digits n) = n"
proof (induction n rule: digits.induct)
  case (1 n)
  show ?case
  proof (cases "n < 10")
    case True
    then have "digit_of 10 (digitChar n) = Some n"
      using 1(2) by (intro digit_of_digitChar) simp_all
    then show ?thesis
      using True by (simp add: digits.simps [of n] isDigit_def radix_value_def)
  next
    case False
    have "n mod 10 < 10" by simp
    then have m: "0 \<le> n mod 10" "n mod 10 \<le> 9" by simp_all
    have d: "digit_of 10 (digitChar (n mod 10)) = Some (n mod 10)"
      using m by (rule digit_of_digitChar)
    have "0 \<le> n div 10" using 1(2) by simp
    with 1(1) False have ih: "list_all isDigit (digits (n div 10))" "digits (n div 10) \<noteq> []"
        "radix_value 10 (digits (n div 10)) = n div 10"
      by simp_all
    have "isDigit (digitChar (n mod 10))" using d by (simp add: isDigit_def)
    then show ?thesis
      using False ih d
      by (simp add: digits.simps [of n] radix_value_snoc)
  qed
qed

lemma radix_value_zeros: "radix_value 10 (replicate k (CHR ''0'') @ s) = radix_value 10 s"
proof -
  have z: "digit_of 10 (CHR ''0'') = Some 0" by (simp add: digit_of_def)
  have "foldl (\<lambda>a c. case digit_of 10 c of None \<Rightarrow> a | Some d \<Rightarrow> a * 10 + d) 0 (replicate k (CHR ''0'')) = 0"
    by (induction k) (simp_all add: z)
  then show ?thesis by (simp add: radix_value_def)
qed

lemma isDigit_zero: "isDigit (CHR ''0'')"
  by (simp add: isDigit_def digit_of_def)

lemma not_isDigit_minus: "\<not> isDigit (CHR ''-'')"
  by (simp add: isDigit_def digit_of_def)

lemma padStart2_digits:
  assumes "0 \<le> n"
  shows "list_all isDigit (padStart2 (digits n))" "padStart2 (digits n) \<noteq> []"
    "radix_value 10 (padStart2 (digits n)) = n"
  using digits_sound [OF assms]
  by (auto simp add: padStart2_def radix_value_zeros isDigit_zero list_all_iff)


section \<open>Date strings\<close>

lemma takeWhile_digits:
  assumes "list_all isDigit xs"
  shows "takeWhile isDigit (xs @ CHR ''-'' # ys) = xs" "dropWhile isDigit (xs @ CHR ''-'' # ys) = CHR ''-'' # ys"
  using assms by (simp_all add: list_all_iff takeWhile_append2 dropWhile_append2 not_isDigit_minus)

lemma readISODate_positive:
  assumes "list_all isDigit ys" "ys \<noteq> []" "list_all isDigit ms" "ms \<noteq> []"
    "list_all isDigit ds" "ds \<noteq> []"
  shows "readISODate (ys @ ''-'' @ ms @ ''-'' @ ds)
           = Some (radix_value 10 ys, radix_value 10 ms, radix_value 10 ds)"
proof -
  have "hd ys \<noteq> CHR ''-''"
    using assms(1,2) not_isDigit_minus by (cases ys) auto
  then have n: "take 1 (ys @ ''-'' @ ms @ ''-'' @ ds) \<noteq> ''-''"
    using assms(2) by (cases ys) auto
  show ?thesis
    unfolding readISODate_def Let_def
    using n assms by (simp add: takeWhile_digits)
qed

lemma readISODate_negative:
  assumes "list_all isDigit ys" "ys \<noteq> []" "list_all isDigit ms" "ms \<noteq> []"
    "list_all isDigit ds" "ds \<noteq> []"
  shows "readISODate (''-'' @ ys @ ''-'' @ ms @ ''-'' @ ds)
           = Some (- radix_value 10 ys, radix_value 10 ms, radix_value 10 ds)"
  unfolding readISODate_def Let_def
  using assms by (simp add: takeWhile_digits)

lemma formatDate_fields:
  "formatDate h (Some t) =
     Number_toString (Some (YearFromTime (LocalTime h t))) @ ''-''
       @ padStart2 (digits (MonthFromTime (LocalTime h t) + 1)) @ ''-''
       @ padStart2 (digits (DateFromTime (LocalTime h t)))"
proof -
  note f = fields_valid [of "LocalTime h t"]
  show ?thesis
    unfolding formatDate_def Let_def getFullYear_def getMonth_def getDate_def num_add_def
    using f(1,3) by (simp add: Number_toString_def)
qed

lemma readISODate_formatDate:
  "readISODate (formatDate h (Some t))
     = Some (YearFromTime (LocalTime h t), MonthFromTime (LocalTime h t) + 1,
             DateFromTime (LocalTime h t))"
proof -
  define lt where "lt = LocalTime h t"
  note f = fields_valid [of lt]
  have m: "0 \<le> MonthFromTime lt + 1" and d: "0 \<le> DateFromTime lt" using f by simp_all
  note pm = padStart2_digits [OF m] and pd = padStart2_digits [OF d]
  show ?thesis
  proof (cases "YearFromTime lt < 0")
    case True
    then have y: "0 \<le> - YearFromTime lt" by simp
    show ?thesis
      unfolding formatDate_fields lt_def [symmetric]
      using True digits_sound [OF y] pm pd
      by (simp add: Number_toString_def readISODate_negative [simplified])
  next
    case False
    then have y: "0 \<le> YearFromTime lt" by simp
    show ?thesis
      unfolding formatDate_fields lt_def [symmetric]
      using False digits_sound [OF y] pm pd
      by (simp add: Number_toString_def readISODate_positive [simplified])
  qed
qed

text \<open>The string of a valid date names the local calendar day of that date.\<close>

lemma calendarDay_formatDate: "calendarDay (formatDate h (Some t)) = Some (localDay h t)"
proof -
  define lt where "lt = LocalTime h t"
  note f = fields_valid [of lt]
  have "DaysInYear (YearFromTime lt) - 365 = InLeapYear lt"
    using DayWithinYear_range(4) [of lt] by simp
  then show ?thesis
    unfolding calendarDay_def civilDay_def readISODate_formatDate localDay_def lt_def [symmetric]
    using f by simp
qed

lemma calendarDay_NaN: "calendarDay (formatDate h None) = None"
  by (simp add: calendarDay_def readISODate_def formatDate_def getFullYear_def getMonth_def
      getDate_def num_add_def Number_toString_def padStart2_def isDigit_def digit_of_def)

section \<open>The branches of \<open>parseTimeRange\<close>\<close>

lemma digit_of_samples:
  "digit_of 10 (CHR ''0'') = Some 0" "digit_of 10 (CHR ''X'') = None"
  "digit_of 16 (CHR ''X'') = None"
  by (simp_all add: digit_of_def)

lemma parseInt_0: "parseInt ''0'' = Some 0"
  unfolding parseInt_def Let_def by (simp add: isWhiteSpace_def digit_of_samples radix_value_def)

lemma parseInt_X: "parseInt ''X'' = None"
  unfolding parseInt_def Let_def by (simp add: isWhiteSpace_def digit_of_samples radix_value_def)

lemma dates_TODAY:
  "index tokens 0 = Some ''TODAY'' \<Longrightarrow>
   parseTimeRange_dates h now now2 tokens = Inr (Date_of_number (Some now), Date_of_number (Some now))"
  unfolding parseTimeRange_dates_def Let_def by simp

lemma dates_PAST:
  "index tokens 0 = Some ''PAST'' \<Longrightarrow>
   parseTimeRange_dates h now now2 tokens =
     (if isNaN (parseInt (ToString (index tokens 1))) \<or> index tokens 2 \<noteq> Some ''DAYS''
      then Inl (Error ''Invalid PAST format. Use 'PAST <number> DAYS'.'')
      else Inr (Date_of_number (setDate h (Date_of_number (Some now2))
                  (num_sub (getDate h (Date_of_number (Some now)))
                     (num_sub (parseInt (ToString (index tokens 1))) (Some 1)))),
                Date_of_number (Some now)))"
  unfolding parseTimeRange_dates_def Let_def by simp

lemma dates_FROM:
  "index tokens 0 = Some ''FROM'' \<Longrightarrow>
   parseTimeRange_dates h now now2 tokens =
     (if length tokens < 4 \<or> index tokens 2 \<noteq> Some ''TO''
      then Inl (Error ''Invalid FROM...TO format.'')
      else if isNaN (getTime (Date_of_string h (index tokens 1)))
              \<or> isNaN (getTime (Date_of_string h (index tokens 3)))
           then Inl (Error ''Invalid date format in FROM...TO. Use YYYY-MM-DD.'')
           else Inr (Date_of_string h (index tokens 1), Date_of_string h (index tokens 3)))"
  unfolding parseTimeRange_dates_def Let_def by simp

lemma index_drop1: "index (drop 1 xs) i = index xs (Suc i)"
  by (auto simp: index_def)

lemma parseQuery_accepted:
  assumes "parseQuery h now now2 source = Inr q"
  obtains r where "parseTimeRange h now now2 (drop 1 (tokenize source)) = Inr r"
    and "qfrom q = range_from r" and "qto q = range_to r"
  using assms unfolding parseQuery_def Let_def
  by (auto split: if_splits sum.splits)

section \<open>The clock and the ranges\<close>

lemma Day_le: "t \<le> b * msPerDay \<Longrightarrow> Day t \<le> b"
  using div_lower [of msPerDay t] unfolding Day_def msPerDay_def by simp

lemma Day_ge: "b * msPerDay \<le> t \<Longrightarrow> b \<le> Day t"
  using div_upper [of msPerDay t] unfolding Day_def msPerDay_def by simp

lemma Day_mono: "t \<le> t' \<Longrightarrow> Day t \<le> Day t'"
  unfolding Day_def msPerDay_def by (simp add: zdiv_mono1)

text \<open>With offsets of at most a day, local time and UTC are at most a day apart.\<close>

lemma offset_facts:
  assumes "clock_reading h now"
  shows "t - 86400000 \<le> LocalTime h t" "LocalTime h t \<le> t + 86400000"
    "t - 86400000 \<le> UTC h t" "UTC h t \<le> t + 86400000"
proof -
  have "\<bar>LocalTZA h t True\<bar> \<le> 86400000" "\<bar>LocalTZA h t False\<bar> \<le> 86400000"
    using assms unfolding clock_reading_def msPerDay_def by blast+
  then show "t - 86400000 \<le> LocalTime h t" "LocalTime h t \<le> t + 86400000"
    "t - 86400000 \<le> UTC h t" "UTC h t \<le> t + 86400000"
    unfolding LocalTime_def UTC_def by linarith+
qed

lemma clock_range:
  assumes "clock_reading h now"
  shows "- 8639996544000000 \<le> now" "now \<le> 8639996544000000"
  using assms unfolding clock_reading_def maxTime_def msPerDay_def by auto

lemma TimeClip_in:
  assumes "- 8640000000000000 \<le> t" "t \<le> 8640000000000000"
  shows "TimeClip t = Some t"
  using assms unfolding TimeClip_def maxTime_def by simp

lemma Day_in:
  assumes "- (b * 86400000) \<le> t" "t \<le> b * 86400000"
  shows "\<bar>Day t\<bar> \<le> b"
proof -
  have "(- b) * msPerDay \<le> t" "t \<le> b * msPerDay"
    using assms unfolding msPerDay_def by simp_all
  then have "- b \<le> Day t" "Day t \<le> b" using Day_ge Day_le by blast+
  then show ?thesis by simp
qed

lemma clock_facts:
  assumes "clock_reading h now"
  shows "TimeClip now = Some now" "\<bar>localDay h now\<bar> \<le> 99999961"
proof -
  note n = clock_range [OF assms] and o = offset_facts [OF assms, of now]
  show "TimeClip now = Some now"
    using n by (intro TimeClip_in) simp_all
  show "\<bar>localDay h now\<bar> \<le> 99999961"
    unfolding localDay_def using n o by (intro Day_in) simp_all
qed

lemma Date_range: "1 \<le> DateFromTime t" "DateFromTime t \<le> 31"
  using fields_valid(3,4) [of t] unfolding DaysInMonth_def
  by (simp_all add: DaysInYear_def split: if_splits)

text \<open>
  \<open>setDate\<close> sets the day of the month in local time, keeps the local time of day, and
  reads the local time that results.
\<close>

lemma setDate_near:
  assumes "\<bar>localDay h t\<bar> \<le> 99999969"
  shows "setDate h (Some t) (Some k)
           = TimeClip (UTC h (LocalTime h t + (k - DateFromTime (LocalTime h t)) * msPerDay))"
  using assms Date_range [of "LocalTime h t"]
  by (intro setDate_shift) (simp add: localDay_def)

lemma WeekDay_range: "0 \<le> WeekDay t" "WeekDay t \<le> 6"
  unfolding WeekDay_def by simp_all

text \<open>
  \<open>WEEK\<close>: the first date is the local time \<open>mondayOf\<close> as the zone reads it, the second
  the local time six days after the local time of the first.
\<close>

lemma dates_WEEK:
  assumes "index tokens 0 = Some ''WEEK''" and c: "clock_reading h now"
  shows "parseTimeRange_dates h now now2 tokens
           = Inr (Some (UTC h (mondayOf h now)),
                  Some (UTC h (LocalTime h (UTC h (mondayOf h now)) + 6 * msPerDay)))"
proof -
  define lt where "lt = LocalTime h now"
  define w where "w = WeekDay lt"
  define j where "j = (w + 6) mod 7"
  define a :: int where "a = (if w = 0 then - 6 else 1)"
  define D where "D = DateFromTime lt"
  have w: "0 \<le> w" "w \<le> 6" unfolding w_def by (rule WeekDay_range)+
  have j: "0 \<le> j" "j \<le> 6" unfolding j_def by simp_all
  have adj: "a - w = - j"
  proof (cases "w = 0")
    case True
    then show ?thesis by (simp add: a_def j_def)
  next
    case False
    with w have "1 \<le> w" by simp
    then have "(w + 6) mod 7 = w - 1"
      using w by (intro int_mod_pos_eq [of _ _ 1]) simp_all
    with False show ?thesis by (simp add: a_def j_def)
  qed
  define monday where "monday = lt - j * 86400000"
  define u1 where "u1 = UTC h monday"
  define l1 where "l1 = LocalTime h u1"
  define u2 where "u2 = UTC h (l1 + 6 * 86400000)"
  have m: "mondayOf h now = monday"
    unfolding monday_def mondayOf_def j_def w_def lt_def msPerDay_def by simp
  note cf = clock_facts [OF c] and n = clock_range [OF c]
  note o = offset_facts [OF c]
  note b0 = o(1,2) [of now, folded lt_def]
  note b1 = o(3,4) [of monday, folded u1_def]
  note b2 = o(1,2) [of u1, folded l1_def]
  note b3 = o(3,4) [of "l1 + 6 * 86400000", folded u2_def]
  have mb: "lt - 6 * 86400000 \<le> monday" "monday \<le> lt"
    using j unfolding monday_def by simp_all
  have today: "Date_of_number (Some now) = Some now"
    using cf(1) by (simp add: Date_of_number_def)
  have arg: "num_add (num_sub (getDate h (Some now)) (getDay h (Some now)))
               (if getDay h (Some now) = Some 0 then Some (- 6) else Some 1) = Some (D - w + a)"
    by (simp add: getDate_def getDay_def num_add_def num_sub_def D_def w_def a_def lt_def)
  have "D - w + a - D = - j" using adj by simp
  then have "lt + (D - w + a - D) * msPerDay = monday"
    unfolding monday_def msPerDay_def by simp
  then have s1: "setDate h (Some now) (Some (D - w + a)) = TimeClip u1"
    using setDate_near [of h now "D - w + a"] cf(2)
    unfolding D_def lt_def u1_def by simp
  have tc1: "TimeClip u1 = Some u1"
    using n b0 b1 mb by (intro TimeClip_in) linarith+
  have ld: "\<bar>localDay h u1\<bar> \<le> 99999969"
    unfolding localDay_def l1_def [symmetric]
    using n b0 b1 b2 mb by (intro Day_in) linarith+
  have s2: "setDate h (Some u1) (Some (DateFromTime l1 + 6)) = TimeClip u2"
    using setDate_near [OF ld, of "DateFromTime (LocalTime h u1) + 6"]
    unfolding l1_def u2_def msPerDay_def by simp
  have tc2: "TimeClip u2 = Some u2"
    using n b0 b1 b2 b3 mb by (intro TimeClip_in) linarith+
  have first: "Date_of_number (setDate h (Some now) (Some (D - w + a))) = Some u1"
    using s1 tc1 by (simp add: Date_of_number_def)
  have last: "Date_of_number (setDate h (Date_of_number (getTime (Some u1)))
                (num_add (getDate h (Some u1)) (Some 6))) = Some u2"
    using s2 tc1 tc2 by (simp add: Date_of_number_def getTime_def getDate_def num_add_def l1_def)
  have "parseTimeRange_dates h now now2 tokens = Inr (Some u1, Some u2)"
    unfolding parseTimeRange_dates_def Let_def today arg first last
    using assms(1) by simp
  then show ?thesis
    unfolding m u2_def l1_def u1_def msPerDay_def .
qed

text \<open>The two dates of \<open>WEEK\<close> are in order, whatever the changes of the clock.\<close>

lemma WEEK_ordered:
  assumes c: "clock_reading h now"
  shows "localDay h (UTC h t) \<le> localDay h (UTC h (LocalTime h (UTC h t) + 6 * msPerDay))"
proof -
  define u1 where "u1 = UTC h t"
  define l1 where "l1 = LocalTime h u1"
  define u2 where "u2 = UTC h (l1 + 6 * 86400000)"
  note o = offset_facts [OF c]
  have "l1 \<le> LocalTime h u2"
    using o(3) [of "l1 + 6 * 86400000", folded u2_def] o(1) [of u2] by linarith
  then show ?thesis
    unfolding localDay_def u1_def [symmetric] l1_def [symmetric] msPerDay_def u2_def [symmetric]
    by (rule Day_mono)
qed


text \<open>
  \<open>PAST\<close>, when the two readings of the clock fall in one local month: the first date is
  the local time \<open>daysBefore\<close> as the zone reads it.
\<close>

lemma same_month_first:
  assumes "same_month h now now2"
  shows "Day (LocalTime h now2) - DateFromTime (LocalTime h now2)
           = Day (LocalTime h now) - DateFromTime (LocalTime h now)"
proof -
  have y: "YearFromTime (LocalTime h now) = YearFromTime (LocalTime h now2)"
    and m: "MonthFromTime (LocalTime h now) = MonthFromTime (LocalTime h now2)"
    using assms unfolding same_month_def by simp_all
  have "InLeapYear (LocalTime h now) = InLeapYear (LocalTime h now2)"
    unfolding InLeapYear_def y ..
  then show ?thesis
    using fields_valid(5) [of "LocalTime h now"] fields_valid(5) [of "LocalTime h now2"] y m
    by simp
qed

lemma dates_PAST_count:
  assumes "index tokens 0 = Some ''PAST''" and c: "clock_reading h now"
    and c2: "clock_reading h now2" and sm: "same_month h now now2"
    and "parseInt (ToString (index tokens 1)) = Some n" "index tokens 2 = Some ''DAYS''"
  shows "parseTimeRange_dates h now now2 tokens
           = Inr (TimeClip (UTC h (daysBefore h now now2 (n - 1))), Some now)"
proof -
  note cf = clock_facts [OF c] and cf2 = clock_facts [OF c2]
  define l1 where "l1 = LocalTime h now"
  define l2 where "l2 = LocalTime h now2"
  have today: "Date_of_number (Some now) = Some now" "Date_of_number (Some now2) = Some now2"
    using cf(1) cf2(1) by (simp_all add: Date_of_number_def)
  have "Day l2 - DateFromTime l2 = Day l1 - DateFromTime l1"
    unfolding l1_def l2_def by (rule same_month_first [OF sm])
  then have e: "DateFromTime l1 - (n - 1) - DateFromTime l2 = Day l1 - (n - 1) - Day l2"
    by simp
  have sp: "l2 = Day l2 * 86400000 + TimeWithinDay l2"
    using Day_split [of l2] unfolding msPerDay_def .
  have "(Day l1 - (n - 1) - Day l2) * 86400000
          = (Day l1 - (n - 1)) * 86400000 - Day l2 * 86400000"
    by (simp add: algebra_simps)
  with sp have "l2 + (Day l1 - (n - 1) - Day l2) * 86400000
                  = (Day l1 - (n - 1)) * 86400000 + TimeWithinDay l2"
    by linarith
  then have "l2 + (DateFromTime l1 - (n - 1) - DateFromTime l2) * msPerDay
               = (Day l1 - (n - 1)) * msPerDay + TimeWithinDay l2"
    unfolding e msPerDay_def .
  then have "setDate h (Some now2) (Some (DateFromTime l1 - (n - 1)))
          = TimeClip (UTC h (daysBefore h now now2 (n - 1)))"
    using setDate_near [of h now2 "DateFromTime l1 - (n - 1)"] cf2(2)
    unfolding daysBefore_def localDay_def l1_def l2_def by simp
  moreover have "Date_of_number (TimeClip x) = TimeClip x" for x
    by (simp add: Date_of_number_def TimeClip_def)
  ultimately show ?thesis
    unfolding dates_PAST [OF assms(1)] today
    using assms(5,6) by (simp add: isNaN_def getDate_def num_sub_def l1_def)
qed

lemma day_kept_day: "day_kept h t \<Longrightarrow> localDay h (UTC h t) = Day t"
  by (simp add: day_kept_def shown_for_def localDay_def)

lemma daysBefore_day: "Day (daysBefore h now now2 k) = localDay h now - k"
proof -
  have "0 \<le> TimeWithinDay (LocalTime h now2)" "TimeWithinDay (LocalTime h now2) < msPerDay"
    unfolding TimeWithinDay_def msPerDay_def by simp_all
  then show ?thesis
    unfolding daysBefore_def Day_def
    by (simp add: msPerDay_def div_pos_pos_trivial)
qed

lemma monthStart_next:
  assumes "0 \<le> m" "m \<le> 10" "0 \<le> L" "L \<le> 1"
  shows "monthStart L m + 28 \<le> monthStart L (m + 1)" "monthStart L (m + 1) \<le> monthStart L m + 31"
proof -
  have c: "m = 0 \<or> m = 1 \<or> m = 2 \<or> m = 3 \<or> m = 4 \<or> m = 5 \<or> m = 6 \<or> m = 7 \<or> m = 8
      \<or> m = 9 \<or> m = 10 \<or> m = 11"
    using assms(1,2) by (intro month_cases) simp_all
  show "monthStart L m + 28 \<le> monthStart L (m + 1)"
    using c assms unfolding monthStart_def by (elim disjE) simp_all
  show "monthStart L (m + 1) \<le> monthStart L m + 31"
    using c assms unfolding monthStart_def by (elim disjE) simp_all
qed

lemma monthStart_range:
  assumes "0 \<le> L" "L \<le> 1"
  shows "0 \<le> monthStart L m" "monthStart L m \<le> 335"
  using assms unfolding monthStart_def by simp_all

lemma TimeClip_midnight:
  assumes c: "clock_reading h now" and "\<bar>d\<bar> \<le> 99999999"
  shows "TimeClip (UTC h (d * msPerDay)) = Some (UTC h (d * msPerDay))"
proof -
  have "- 99999999 \<le> d" "d \<le> 99999999" using assms(2) by simp_all
  then show ?thesis
    using offset_facts(3,4) [OF c, of "d * 86400000"]
    unfolding msPerDay_def by (intro TimeClip_in) linarith+
qed

lemma Date_of_fields_Some:
  "Date_of_fields h (Some y) (Some m) (Some dt) =
     (case MakeDate (MakeDay (if 0 \<le> y \<and> y \<le> 99 then 1900 + y else y) m dt) 0 of
        None \<Rightarrow> None
      | Some finalDate \<Rightarrow> TimeClip (UTC h finalDate))"
  by (simp add: Date_of_fields_def)

text \<open>
  \<open>MONTH\<close>: two valid dates, the first not after the second. (For a clock that reads a
  year from 0 to 99, \<open>new Date(year, month, 1)\<close> takes the year as 1900 + year.)
\<close>

lemma dates_MONTH:
  assumes "index tokens 0 = Some ''MONTH''" and c: "clock_reading h now"
  obtains f l where "parseTimeRange_dates h now now2 tokens = Inr (Some f, Some l)"
    and "localDay h f \<le> localDay h l"
proof -
  define lt where "lt = LocalTime h now"
  define Y where "Y = YearFromTime lt"
  define M where "M = MonthFromTime lt"
  define yr where "yr = (if 0 \<le> Y \<and> Y \<le> 99 then 1900 + Y else Y)"
  define L where "L = DaysInYear yr - 365"
  define first where "first = DayFromYear yr + monthStart L M"
  define final where "final = (if M = 11 then DayFromYear (yr + 1) - 1 else DayFromYear yr + monthStart L (M + 1) - 1)"
  note cf = clock_facts [OF c]
  note fv = fields_valid [of lt, folded Y_def M_def]
  have L: "0 \<le> L" "L \<le> 1" using DaysInYear_cases [of yr] by (auto simp: L_def)
  have today: "Date_of_number (Some now) = Some now"
    using cf(1) by (simp add: Date_of_number_def)
  have fb: "- 99999991 \<le> first \<and> first \<le> 99999968"
  proof (cases "0 \<le> Y \<and> Y \<le> 99")
    case True
    then have y: "1900 \<le> yr" "yr \<le> 1999" by (simp_all add: yr_def)
    have "- 30000 \<le> DayFromYear yr" "DayFromYear yr \<le> 30000"
      using DayFromYear_lower [of yr] DayFromYear_upper [of yr] y by linarith+
    then show ?thesis
      using monthStart_range [OF L, of M] unfolding first_def by linarith
  next
    case False
    then have "yr = Y" by (simp add: yr_def)
    moreover have "DaysInYear Y - 365 = InLeapYear lt"
      using DayWithinYear_range(4) [of lt] by (simp add: Y_def)
    ultimately have "first = Day lt - DateFromTime lt + 1"
      using fv(5) unfolding first_def L_def by simp
    then show ?thesis
      using cf(2) Date_range [of lt] unfolding localDay_def lt_def by linarith
  qed
  have ff: "first + 27 \<le> final" "final \<le> first + 30"
  proof -
    show "first + 27 \<le> final"
    proof (cases "M = 11")
      case True
      then show ?thesis
        using DayFromYear_step [of yr] L
        unfolding first_def final_def monthStart_def L_def by simp
    next
      case False
      then have "M \<le> 10" using fv(2) by simp
      then show ?thesis
        using False monthStart_next(1) [OF fv(1) _ L] unfolding first_def final_def by simp
    qed
    show "final \<le> first + 30"
    proof (cases "M = 11")
      case True
      then show ?thesis
        using DayFromYear_step [of yr] L
        unfolding first_def final_def monthStart_def L_def by simp
    next
      case False
      then have "M \<le> 10" using fv(2) by simp
      then show ?thesis
        using False monthStart_next(2) [OF fv(1) _ L] unfolding first_def final_def by simp
    qed
  qed
  have ab: "\<bar>first\<bar> \<le> 100000000" "\<bar>final + 1\<bar> \<le> 100000000"
      "\<bar>first\<bar> \<le> 99999999" "\<bar>final\<bar> \<le> 99999999"
    using fb ff by linarith+
  have md: "M div 12 = 0" "M mod 12 = M" using fv(1,2) by simp_all
  have mk1: "MakeDay yr M 1 = Some first"
    unfolding MakeDay_def Let_def md using ab(1) by (simp add: first_def L_def)
  have mk2: "MakeDay yr (M + 1) 0 = Some final"
  proof (cases "M = 11")
    case True
    have "\<bar>DayFromYear (yr + 1)\<bar> \<le> 100000000"
      using ab(2) True unfolding final_def by simp
    then show ?thesis
      unfolding MakeDay_def Let_def using True by (simp add: final_def monthStart_def)
  next
    case False
    then have m: "M \<le> 10" using fv(2) by simp
    then have "(M + 1) div 12 = 0" "(M + 1) mod 12 = M + 1" using fv(1) by simp_all
    moreover have "\<bar>DayFromYear yr + monthStart L (M + 1)\<bar> \<le> 100000000"
      using ab(2) False unfolding final_def by simp
    ultimately show ?thesis
      unfolding MakeDay_def Let_def using False by (simp add: final_def L_def)
  qed
  have d1: "Date_of_fields h (Some Y) (Some M) (Some 1) = Some (UTC h (first * msPerDay))"
    unfolding Date_of_fields_Some yr_def [symmetric]
    using mk1 TimeClip_midnight [OF c ab(3)]
    by (simp add: MakeDate_def)
  have d2: "Date_of_fields h (Some Y) (Some (M + 1)) (Some 0) = Some (UTC h (final * msPerDay))"
    unfolding Date_of_fields_Some yr_def [symmetric]
    using mk2 TimeClip_midnight [OF c ab(4)]
    by (simp add: MakeDate_def)
  have "parseTimeRange_dates h now now2 tokens
          = Inr (Some (UTC h (first * msPerDay)), Some (UTC h (final * msPerDay)))"
    unfolding parseTimeRange_dates_def Let_def today
    using assms(1) d1 d2
    by (simp add: getFullYear_def getMonth_def num_add_def Y_def M_def lt_def)
  moreover have "localDay h (UTC h (first * msPerDay)) \<le> localDay h (UTC h (final * msPerDay))"
  proof -
    note o = offset_facts [OF c]
    have "LocalTime h (UTC h (first * 86400000)) \<le> LocalTime h (UTC h (final * 86400000))"
      using o(4) [of "first * 86400000"] o(2) [of "UTC h (first * 86400000)"]
        o(3) [of "final * 86400000"] o(1) [of "UTC h (final * 86400000)"] ff(1)
      by linarith
    then show ?thesis
      unfolding localDay_def msPerDay_def by (rule Day_mono)
  qed
  ultimately show thesis by (rule that)
qed

section \<open>Claims about the time-range resolver\<close>

lemma parseTimeRange_Inr:
  "parseTimeRange_dates h now now2 tokens = Inr (f, l) \<Longrightarrow>
   parseTimeRange h now now2 tokens
     = Inr \<lparr>range_from = formatDate h f, range_to = formatDate h l\<rparr>"
  by (simp add: parseTimeRange_def)

text \<open>
  C3 (as amended). For a range that starts with \<open>PAST\<close>, the resolver fails exactly when
  \<open>parseInt\<close> of the count token is \<open>NaN\<close> or the token after it is not \<open>DAYS\<close>, and then
  with the fixed message \<open>Invalid PAST format. Use 'PAST <number> DAYS'.\<close>; every count
  that \<open>parseInt\<close> reads as a number is accepted, zero and negative numbers included.
\<close>

theorem parseTimeRange_PAST:
  assumes "index tokens 0 = Some ''PAST''"
  shows "(isl (parseTimeRange h now now2 tokens) \<longleftrightarrow>
            isNaN (parseInt (ToString (index tokens 1))) \<or> index tokens 2 \<noteq> Some ''DAYS'')
       \<and> (isl (parseTimeRange h now now2 tokens) \<longrightarrow>
            parseTimeRange h now now2 tokens
              = Inl (Error ''Invalid PAST format. Use 'PAST <number> DAYS'.''))"
  by (simp add: parseTimeRange_def dates_PAST [OF assms])

theorem parseTimeRange_PAST_witness:
  "parseTimeRange \<lparr>LocalTZA = (\<lambda>t isUTC. 0), parseOther = (\<lambda>s. None)\<rparr> 0 0 [''PAST'', ''X'', ''DAYS'']
     = Inl (Error ''Invalid PAST format. Use 'PAST <number> DAYS'.'')"
  using parseTimeRange_PAST [of "[''PAST'', ''X'', ''DAYS'']"
      "\<lparr>LocalTZA = (\<lambda>t isUTC. 0), parseOther = (\<lambda>s. None)\<rparr>" 0 0]
  by (simp add: index_def ToString_def parseInt_X isNaN_def)

text \<open>C3 as stated fails: the count \<open>0\<close> is not positive, and \<open>PAST 0 DAYS\<close> is accepted.\<close>

theorem parseTimeRange_PAST_zero_accepted:
  "parseInt ''0'' = Some 0
   \<and> isl (parseTimeRange \<lparr>LocalTZA = (\<lambda>t isUTC. 0), parseOther = (\<lambda>s. None)\<rparr> 0 0
            [''PAST'', ''0'', ''DAYS'']) = False"
  by (simp add: parseTimeRange_def dates_PAST index_def ToString_def parseInt_0 isNaN_def)


text \<open>
  \<open>PAST n DAYS\<close> for a count \<open>n\<close>, when the two readings of the clock fall in one local
  month, and the day \<open>n - 1\<close> days before today, at the local time of day of the second
  reading, is within the range of \<open>Date\<close> and not carried to another day by a change
  of the clock: the second date is today, the first is that day.
\<close>

lemma PAST_resolved:
  assumes "clock_reading h now" and "clock_reading h now2" and "same_month h now now2"
    and "index tokens 0 = Some ''PAST''"
    and "parseInt (ToString (index tokens 1)) = Some n" and "index tokens 2 = Some ''DAYS''"
    and "\<bar>UTC h (daysBefore h now now2 (n - 1))\<bar> \<le> maxTime"
  shows "parseTimeRange h now now2 tokens
           = Inr \<lparr>range_from = formatDate h (Some (UTC h (daysBefore h now now2 (n - 1)))),
                  range_to = formatDate h (Some now)\<rparr>"
proof -
  have tc: "TimeClip (UTC h (daysBefore h now now2 (n - 1)))
              = Some (UTC h (daysBefore h now now2 (n - 1)))"
    using assms(7) by (simp add: TimeClip_def)
  show ?thesis
    using dates_PAST_count [OF assms(4,1,2,3,5,6)] unfolding tc by (rule parseTimeRange_Inr)
qed

lemma PAST_n_days:
  assumes "clock_reading h now" and "clock_reading h now2" and "same_month h now now2"
    and "index tokens 0 = Some ''PAST''"
    and "parseInt (ToString (index tokens 1)) = Some n" and "index tokens 2 = Some ''DAYS''"
    and "\<bar>UTC h (daysBefore h now now2 (n - 1))\<bar> \<le> maxTime"
    and "day_kept h (daysBefore h now now2 (n - 1))"
  shows "case parseTimeRange h now now2 tokens of
           Inl e \<Rightarrow> False
         | Inr r \<Rightarrow> calendarDay (range_to r) = Some (localDay h now)
                  \<and> calendarDay (range_from r) = Some (localDay h now - (n - 1))"
  unfolding PAST_resolved [OF assms(1-7)]
  by (simp add: calendarDay_formatDate day_kept_day [OF assms(8)] daysBefore_day)

subsection \<open>Evaluation at sample inputs\<close>

lemma isWhiteSpace_iff:
  "isWhiteSpace c \<longleftrightarrow> c = CHR '' '' \<or> c = CHR 0x09 \<or> c = CHR 0x0A \<or> c = CHR 0x0B
     \<or> c = CHR 0x0C \<or> c = CHR 0x0D \<or> c = CHR 0xA0"
  by (simp add: isWhiteSpace_def)

lemma digit_of_10:
  "digit_of 10 (CHR ''0'') = Some 0" "digit_of 10 (CHR ''1'') = Some 1"
  "digit_of 10 (CHR ''2'') = Some 2" "digit_of 10 (CHR ''3'') = Some 3"
  "digit_of 10 (CHR ''4'') = Some 4" "digit_of 10 (CHR ''5'') = Some 5"
  "digit_of 10 (CHR ''6'') = Some 6" "digit_of 10 (CHR ''7'') = Some 7"
  "digit_of 10 (CHR ''8'') = Some 8" "digit_of 10 (CHR ''9'') = Some 9"
  "digit_of 10 (CHR ''-'') = None" "digit_of 10 (CHR ''N'') = None"
  "digit_of 10 (CHR ''a'') = None"
  by (simp_all add: digit_of_def)

lemma isDigit_iff:
  "isDigit (CHR ''0'')" "isDigit (CHR ''1'')" "isDigit (CHR ''2'')" "isDigit (CHR ''3'')"
  "isDigit (CHR ''4'')" "isDigit (CHR ''5'')" "isDigit (CHR ''6'')" "isDigit (CHR ''7'')"
  "isDigit (CHR ''8'')" "isDigit (CHR ''9'')" "\<not> isDigit (CHR ''-'')" "\<not> isDigit (CHR ''N'')"
  "\<not> isDigit (CHR ''a'')"
  by (simp_all add: isDigit_def digit_of_10)

lemma parseInt_samples:
  "parseInt ''7'' = Some 7" "parseInt ''5'' = Some 5" "parseInt ''1'' = Some 1"
  "parseInt ''1000000000'' = Some 1000000000"
  unfolding parseInt_def Let_def by (simp_all add: isWhiteSpace_iff digit_of_10 radix_value_def)

lemma formatDate_civil:
  assumes "1 \<le> m" "m \<le> 12" "1 \<le> dd" "dd \<le> DaysInMonth y m"
    and "localDay h t = civilDay y m dd"
  shows "formatDate h (Some t)
           = Number_toString (Some y) @ ''-'' @ padStart2 (digits m) @ ''-'' @ padStart2 (digits dd)"
  using fields_of_day [of "m - 1" dd y "LocalTime h t"] assms
  unfolding formatDate_fields localDay_def civilDay_def by simp

lemma formatDate_NaN: "formatDate h None = ''NaN-NaN-NaN''"
  by (simp add: formatDate_def getFullYear_def getMonth_def getDate_def num_add_def
      Number_toString_def padStart2_def)

lemma calendarDay_NaN_string: "calendarDay ''NaN-NaN-NaN'' = None"
  using calendarDay_NaN [of undefined] unfolding formatDate_NaN .

lemma civilDay_samples:
  "civilDay 2025 11 5 = 20397" "civilDay 2025 10 30 = 20391" "civilDay 2025 2 1 = 20120"
  "civilDay 2025 1 1 = 20089" "civilDay 2025 1 31 = 20119" "civilDay 2024 12 31 = 20088"
  "civilDay 2025 1 30 = 20118" "civilDay 999 1 1 = - 354650"
  "civilDay 2025 3 29 = 20176" "civilDay 2025 3 30 = 20177" "civilDay 2025 4 2 = 20180"
  "civilDay 1977 3 21 = 2636" "civilDay 1977 3 22 = 2637" "civilDay 1977 3 23 = 2638"
  "civilDay 1977 3 28 = 2643"
  "civilDay 275760 9 8 = 99999995" "civilDay 275760 9 13 = 100000000"
  by (simp_all add: civilDay_def DayFromYear_def DaysInYear_def monthStart_def)

lemma digits_samples:
  "digits 1 = ''1''" "digits 2 = ''2''" "digits 3 = ''3''" "digits 4 = ''4''"
  "digits 5 = ''5''" "digits 8 = ''8''" "digits 9 = ''9''" "digits 10 = ''10''"
  "digits 11 = ''11''" "digits 12 = ''12''" "digits 22 = ''22''" "digits 28 = ''28''"
  "digits 30 = ''30''" "digits 31 = ''31''"
  "digits 999 = ''999''" "digits 1977 = ''1977''" "digits 2024 = ''2024''"
  "digits 2025 = ''2025''" "digits 275760 = ''275760''"
  by (simp_all add: digits.simps digitChar_def)

text \<open>A zone with one offset, and a zone with one change of the clock.\<close>

lemma fixed_zone:
  "LocalTime \<lparr>LocalTZA = (\<lambda>t isUTC. z), parseOther = p\<rparr> t = t + z"
  "UTC \<lparr>LocalTZA = (\<lambda>t isUTC. z), parseOther = p\<rparr> t = t - z"
  "shown_for \<lparr>LocalTZA = (\<lambda>t isUTC. z), parseOther = p\<rparr> t = t"
  "day_kept \<lparr>LocalTZA = (\<lambda>t isUTC. z), parseOther = p\<rparr> t"
  "localDay \<lparr>LocalTZA = (\<lambda>t isUTC. z), parseOther = p\<rparr> t = Day (t + z)"
  by (simp_all add: LocalTime_def UTC_def shown_for_def day_kept_def localDay_def)

lemma fixed_zone_reading:
  assumes "\<bar>z\<bar> \<le> 86400000" "\<bar>now\<bar> \<le> 8639996544000000"
  shows "clock_reading \<lparr>LocalTZA = (\<lambda>t isUTC. z), parseOther = p\<rparr> now"
  using assms by (simp add: clock_reading_def msPerDay_def maxTime_def)

lemma clockChange_zone:
  "LocalTime (clockChange T b a) t = t + (if t < T then b else a)"
  "UTC (clockChange T b a) t = t - (if t < T + max b a then b else a)"
  "localDay (clockChange T b a) t = Day (t + (if t < T then b else a))"
  by (simp_all add: LocalTime_def UTC_def localDay_def clockChange_def)

lemma clockChange_reading:
  assumes "\<bar>b\<bar> \<le> 86400000" "\<bar>a\<bar> \<le> 86400000" "\<bar>now\<bar> \<le> 8639996544000000"
  shows "clock_reading (clockChange T b a) now"
  using assms by (simp add: clock_reading_def clockChange_def msPerDay_def maxTime_def)

lemma same_month_refl: "same_month h now now"
  by (simp add: same_month_def)

lemma sample_2025_11_05:
  "formatDate \<lparr>LocalTZA = (\<lambda>t isUTC. 3600000), parseOther = (\<lambda>s. None)\<rparr> (Some 1762336800000)
     = ''2025-11-05''"
proof -
  have "localDay \<lparr>LocalTZA = (\<lambda>t isUTC. 3600000), parseOther = (\<lambda>s. None)\<rparr> 1762336800000
          = civilDay 2025 11 5"
    by (simp add: civilDay_samples fixed_zone Day_def msPerDay_def)
  then show ?thesis
    by (subst formatDate_civil [where y = 2025 and m = 11 and dd = 5])
      (simp_all add: DaysInMonth_def Number_toString_def digits_samples padStart2_def)
qed



text \<open>
  C5 fails where a change of the clock skips the time of day on the first day of the
  range. In Nuuk the clock went from 23:00 to 24:00 on Saturday 29 March 2025 (the
  offset from -2:00 to -1:00); at 23:30 on Wednesday 2 April, \<open>PAST 5 DAYS\<close> resolves
  to Sunday 30 March till 2 April, a range of four days.
\<close>

theorem PAST_5_DAYS_spans_four:
  "parseTimeRange (clockChange 1743296400000 (- 7200000) (- 3600000)) 1743640200000 1743640200000
       [''PAST'', ''5'', ''DAYS'']
     = Inr \<lparr>range_from = ''2025-03-30'', range_to = ''2025-04-02''\<rparr>
   \<and> localDay (clockChange 1743296400000 (- 7200000) (- 3600000)) 1743640200000 = civilDay 2025 4 2
   \<and> civilDay 2025 4 2 - civilDay 2025 3 30 = 3"
proof -
  define h where "h = clockChange 1743296400000 (- 7200000) (- 3600000)"
  have c: "clock_reading h 1743640200000"
    unfolding h_def by (rule clockChange_reading) simp_all
  have db: "daysBefore h 1743640200000 1743640200000 4 = 1743291000000"
    unfolding h_def
    by (simp add: daysBefore_def clockChange_zone Day_def TimeWithinDay_def msPerDay_def)
  have u: "UTC h 1743291000000 = 1743298200000"
    unfolding h_def by (simp add: clockChange_zone)
  have d: "localDay h 1743298200000 = civilDay 2025 3 30"
    "localDay h 1743640200000 = civilDay 2025 4 2"
    unfolding h_def by (simp_all add: clockChange_zone Day_def msPerDay_def civilDay_samples)
  have f: "formatDate h (Some 1743298200000) = ''2025-03-30''"
    "formatDate h (Some 1743640200000) = ''2025-04-02''"
    by (subst formatDate_civil [OF _ _ _ _ d(1)] formatDate_civil [OF _ _ _ _ d(2)],
        simp_all add: DaysInMonth_def Number_toString_def digits_samples padStart2_def)+
  have "parseTimeRange h 1743640200000 1743640200000 [''PAST'', ''5'', ''DAYS'']
          = Inr \<lparr>range_from = ''2025-03-30'', range_to = ''2025-04-02''\<rparr>"
    by (subst PAST_resolved [OF c c same_month_refl, where n = 5])
      (simp_all add: index_def ToString_def parseInt_samples db u f maxTime_def)
  then show ?thesis
    using d(2) unfolding h_def by (simp add: civilDay_samples)
qed

text \<open>
  For a count beyond the range of \<open>Date\<close> the first date is invalid, and the branch
  \<open>PAST\<close>, unlike the branch \<open>FROM\<close>, does not test it: a billion days before
  5 November 2025, \<open>from\<close> is the string \<open>NaN-NaN-NaN\<close>.
\<close>

lemma PAST_billion_days_NaN:
  "parseInt ''1000000000'' = Some 1000000000
   \<and> parseTimeRange \<lparr>LocalTZA = (\<lambda>t isUTC. 3600000), parseOther = (\<lambda>s. None)\<rparr>
        1762336800000 1762336800000 [''PAST'', ''1000000000'', ''DAYS'']
      = Inr \<lparr>range_from = ''NaN-NaN-NaN'', range_to = ''2025-11-05''\<rparr>
   \<and> calendarDay ''NaN-NaN-NaN'' = None"
proof -
  define h where "h = \<lparr>LocalTZA = (\<lambda>t isUTC. 3600000 :: int), parseOther = (\<lambda>s :: string. None :: int option)\<rparr>"
  have c: "clock_reading h 1762336800000"
    unfolding h_def by (rule fixed_zone_reading) simp_all
  have "parseTimeRange_dates h 1762336800000 1762336800000 [''PAST'', ''1000000000'', ''DAYS'']
        = Inr (TimeClip (UTC h (daysBefore h 1762336800000 1762336800000 (1000000000 - 1))),
               Some 1762336800000)"
    by (rule dates_PAST_count [OF _ c c same_month_refl])
      (simp_all add: index_def ToString_def parseInt_samples)
  moreover have "TimeClip (UTC h (daysBefore h 1762336800000 1762336800000 (1000000000 - 1))) = None"
    unfolding h_def
    by (simp add: daysBefore_def fixed_zone Day_def TimeWithinDay_def TimeClip_def msPerDay_def
        maxTime_def)
  ultimately show ?thesis
    using parseTimeRange_Inr [of h 1762336800000 1762336800000
        "[''PAST'', ''1000000000'', ''DAYS'']" None "Some 1762336800000"]
    unfolding h_def
    by (simp add: parseInt_samples formatDate_NaN sample_2025_11_05 calendarDay_NaN_string)
qed


text \<open>
  The branch \<open>PAST\<close> takes the day of the month from the first reading of the clock and
  the month from the second: with the first reading in the last millisecond of
  31 January 2026 and the second at the start of 1 February, \<open>PAST 1 DAYS\<close> resolves to
  the 31st day of February, which is 3 March, till 31 January.
\<close>

lemma PAST_across_month_end:
  "parseTimeRange \<lparr>LocalTZA = (\<lambda>t isUTC. 0), parseOther = (\<lambda>s. None)\<rparr>
       1769903999999 1769904000000 [''PAST'', ''1'', ''DAYS'']
     = Inr \<lparr>range_from = ''2026-03-03'', range_to = ''2026-01-31''\<rparr>"
proof -
  define z where "z = \<lparr>LocalTZA = (\<lambda>t isUTC. 0 :: int), parseOther = (\<lambda>s :: string. None :: int option)\<rparr>"
  have zl: "LocalTime z t = t" "UTC z t = t" "localDay z t = Day t" for t
    unfolding z_def by (simp_all add: fixed_zone)
  have c: "civilDay 2026 1 31 = 20484" "civilDay 2026 2 1 = 20485" "civilDay 2026 3 3 = 20515"
    by (simp_all add: civilDay_def DayFromYear_def DaysInYear_def monthStart_def)
  have D: "Day 1769903999999 = civilDay 2026 1 31" "Day 1769904000000 = civilDay 2026 2 1"
    "Day 1772496000000 = civilDay 2026 3 3"
    by (simp_all add: Day_def msPerDay_def c)
  have dt: "DateFromTime 1769903999999 = 31" "DateFromTime 1769904000000 = 1"
    using fields_of_day(3) [of 0 31 2026 1769903999999]
      fields_of_day(3) [of 1 1 2026 1769904000000] D
    by (simp_all add: DaysInMonth_def DaysInYear_def civilDay_def)
  have s: "setDate z (Some 1769904000000) (Some 31) = Some 1772496000000"
    by (subst setDate_shift)
      (simp_all add: zl dt D c msPerDay_def TimeClip_def maxTime_def)
  have tc: "TimeClip 1769903999999 = Some 1769903999999" "TimeClip 1769904000000 = Some 1769904000000"
    "TimeClip 1772496000000 = Some 1772496000000"
    by (simp_all add: TimeClip_def maxTime_def)
  have dg: "digits 2026 = ''2026''" by (simp add: digits.simps digitChar_def)
  have f: "formatDate z (Some 1772496000000) = ''2026-03-03''"
    "formatDate z (Some 1769903999999) = ''2026-01-31''"
    by (subst formatDate_civil [where y = 2026 and m = 3 and dd = 3]
          formatDate_civil [where y = 2026 and m = 1 and dd = 31],
        simp_all add: zl D DaysInMonth_def Number_toString_def digits_samples dg padStart2_def)+
  have "parseTimeRange_dates z 1769903999999 1769904000000 [''PAST'', ''1'', ''DAYS'']
          = Inr (Some 1772496000000, Some 1769903999999)"
    by (subst dates_PAST)
      (simp_all add: index_def ToString_def parseInt_samples isNaN_def Date_of_number_def tc
        getDate_def zl dt num_sub_def s)
  from parseTimeRange_Inr [OF this] show ?thesis
    unfolding z_def [symmetric] by (simp add: f)
qed

section \<open>Date literals: \<open>FROM ... TO ...\<close>\<close>

lemma DayFromYear_4digit:
  assumes "0 \<le> y" "y \<le> 9999"
  shows "- 3000000 \<le> DayFromYear y" "DayFromYear y \<le> 3000000"
  using DayFromYear_lower [of y] DayFromYear_upper [of y] assms by linarith+

lemma MakeDay_civil:
  assumes "1 \<le> m" "m \<le> 12" "0 \<le> y" "y \<le> 9999"
  shows "MakeDay y (m - 1) d = Some (civilDay y m d)"
proof -
  have md: "(m - 1) div 12 = 0" "(m - 1) mod 12 = m - 1" using assms(1,2) by simp_all
  have L: "0 \<le> DaysInYear y - 365" "DaysInYear y - 365 \<le> 1"
    using DaysInYear_cases [of y] by auto
  have "\<bar>DayFromYear y + monthStart (DaysInYear y - 365) (m - 1)\<bar> \<le> 100000000"
    using DayFromYear_4digit [OF assms(3,4)] monthStart_range [OF L, of "m - 1"] by linarith
  then show ?thesis
    unfolding MakeDay_def Let_def md civilDay_def by simp
qed

text \<open>A date-only literal of a day of the calendar is read as midnight UTC of that day.\<close>

lemma Date_of_string_iso:
  assumes "iso_date_only s = Some (y, m, d)" and "1 \<le> m" "m \<le> 12" "1 \<le> d" "d \<le> DaysInMonth y m"
    and "0 \<le> y" "y \<le> 9999"
  shows "Date_of_string h (Some s) = Some (civilDay y m d * msPerDay)"
proof -
  have L: "0 \<le> DaysInYear y - 365" "DaysInYear y - 365 \<le> 1"
    using DaysInYear_cases [of y] by auto
  have "d \<le> 31" using assms(5) L unfolding DaysInMonth_def by (simp split: if_splits)
  then have "- 3000400 \<le> civilDay y m d" "civilDay y m d \<le> 3000400"
    using DayFromYear_4digit [OF assms(6,7)] monthStart_range [OF L, of "m - 1"] assms(4)
    unfolding civilDay_def by linarith+
  then have "\<bar>civilDay y m d * 86400000\<bar> \<le> 8640000000000000" by linarith
  then have "TimeClip (civilDay y m d * msPerDay) = Some (civilDay y m d * msPerDay)"
    unfolding TimeClip_def maxTime_def msPerDay_def by simp
  then show ?thesis
    unfolding Date_of_string_def Date_parse_def
    using assms(1-5) MakeDay_civil [OF assms(2,3,6,7), of d]
    by (simp add: MakeDate_def Date_of_number_def)
qed

text \<open>The four digits of a literal give a year from 0 to 9999.\<close>

lemma digit_of_range: "digit_of R c = Some d \<Longrightarrow> 0 \<le> d \<and> d < R"
  unfolding digit_of_def Let_def by (auto split: if_splits option.splits)

lemma radix_value_bound: "0 \<le> radix_value 10 xs \<and> radix_value 10 xs < 10 ^ length xs"
proof (induction xs rule: rev_induct)
  case Nil
  show ?case by (simp add: radix_value_def)
next
  case (snoc c xs)
  define a where "a = radix_value 10 xs"
  define k :: int where "k = 10 ^ length xs"
  have a: "0 \<le> a" "a < k" using snoc unfolding a_def k_def by simp_all
  have k: "(10 :: int) ^ length (xs @ [c]) = 10 * k" unfolding k_def by simp
  show ?case
  proof (cases "digit_of 10 c")
    case None
    then show ?thesis
      unfolding radix_value_snoc k a_def [symmetric] using a by simp
  next
    case (Some d)
    then have "0 \<le> d" "d < 10" using digit_of_range [of 10 c d] by simp_all
    then show ?thesis
      unfolding radix_value_snoc k a_def [symmetric] Some using a by simp
  qed
qed

lemma iso_year:
  assumes "iso_date_only s = Some (y, m, d)"
  shows "0 \<le> y" "y \<le> 9999"
proof -
  have l: "length s = 10" and y: "y = radix_value 10 (take 4 s)"
    using assms unfolding iso_date_only_def by (simp_all split: if_splits)
  have "length (take 4 s) = 4" using l by simp
  then have "0 \<le> y \<and> y < 10 ^ 4"
    using radix_value_bound [of "take 4 s"] unfolding y by simp
  then show "0 \<le> y" "y \<le> 9999" by simp_all
qed

lemma Date_of_string_literal:
  assumes "literalDay s = Some a"
  shows "Date_of_string h (Some s) = Some (a * msPerDay)"
proof -
  obtain y m d where i: "iso_date_only s = Some (y, m, d)"
    and v: "1 \<le> m" "m \<le> 12" "1 \<le> d" "d \<le> DaysInMonth y m" and a: "a = civilDay y m d"
    using assms unfolding literalDay_def by (auto split: option.splits if_splits)
  show ?thesis
    unfolding a using i v iso_year [OF i] by (rule Date_of_string_iso)
qed

lemma dates_FROM_iso:
  assumes "Date_of_string h (Some s1) = Some t1" "Date_of_string h (Some s2) = Some t2"
  shows "parseTimeRange h now now2 [''FROM'', s1, ''TO'', s2]
           = Inr \<lparr>range_from = formatDate h (Some t1), range_to = formatDate h (Some t2)\<rparr>"
proof -
  have i: "index [''FROM'', s1, ''TO'', s2] 0 = Some ''FROM''" "index [''FROM'', s1, ''TO'', s2] 1 = Some s1"
    "index [''FROM'', s1, ''TO'', s2] 2 = Some ''TO''" "index [''FROM'', s1, ''TO'', s2] 3 = Some s2"
    by (simp_all add: index_def)
  show ?thesis
    unfolding parseTimeRange_def dates_FROM [OF i(1)] i assms
    by (simp add: isNaN_def getTime_def)
qed

text \<open>
  Two literals in order keep their order, when the offset of the zone does not fall by
  more than a day between them.
\<close>

lemma literals_ordered:
  assumes "a \<le> b" and "steady h (a * msPerDay) (b * msPerDay)"
  shows "localDay h (a * msPerDay) \<le> localDay h (b * msPerDay)"
proof (cases "a = b")
  case True
  then show ?thesis by simp
next
  case False
  with assms(1) have "a + 1 \<le> b" by simp
  then have "a * 86400000 + 86400000 \<le> b * 86400000" by simp
  moreover have "LocalTZA h (a * 86400000) True \<le> LocalTZA h (b * 86400000) True + 86400000"
    using assms(2) unfolding steady_def msPerDay_def .
  ultimately have "LocalTime h (a * 86400000) \<le> LocalTime h (b * 86400000)"
    unfolding LocalTime_def by linarith
  then show ?thesis
    unfolding localDay_def msPerDay_def by (rule Day_mono)
qed

lemma calendar_le_formatDate:
  "calendar_le (formatDate h (Some a)) (formatDate h (Some b)) \<longleftrightarrow> localDay h a \<le> localDay h b"
  by (simp add: calendar_le_def calendarDay_formatDate)

subsection \<open>Queries\<close>

lemma parseQuery_tokens:
  assumes "tokenize source = ty # r # extra" and "ty = ''LIST'' \<or> ty = ''SUMMARY''"
  shows "parseQuery h now now2 source =
           (case parseTimeRange h now now2 (r # extra) of
              Inl e \<Rightarrow> Inl e
            | Inr x \<Rightarrow> Inr \<lparr>qtype = (if ty = ''LIST'' then LIST else SUMMARY),
                             qfrom = range_from x, qto = range_to x\<rparr>)"
  unfolding parseQuery_def Let_def assms(1) using assms(2)
  by (auto simp: index_def ToString_def)

lemma dates_prefix:
  assumes "r = ''TODAY'' \<or> r = ''WEEK'' \<or> r = ''MONTH''"
  shows "parseTimeRange_dates h now now2 (r # extra) = parseTimeRange_dates h now now2 [r]"
    and "\<not> isl (parseTimeRange_dates h now now2 (r # extra))"
  using assms unfolding parseTimeRange_dates_def Let_def
  by (auto simp: index_def)

lemma upperChar_samples:
  "upperChar (CHR ''A'') = ''A''" "upperChar (CHR ''D'') = ''D''" "upperChar (CHR ''E'') = ''E''"
  "upperChar (CHR ''F'') = ''F''" "upperChar (CHR ''H'') = ''H''" "upperChar (CHR ''I'') = ''I''"
  "upperChar (CHR ''K'') = ''K''" "upperChar (CHR ''L'') = ''L''" "upperChar (CHR ''M'') = ''M''"
  "upperChar (CHR ''N'') = ''N''" "upperChar (CHR ''O'') = ''O''" "upperChar (CHR ''P'') = ''P''"
  "upperChar (CHR ''R'') = ''R''" "upperChar (CHR ''S'') = ''S''" "upperChar (CHR ''T'') = ''T''"
  "upperChar (CHR ''U'') = ''U''" "upperChar (CHR ''W'') = ''W''" "upperChar (CHR ''Y'') = ''Y''"
  "upperChar (CHR ''a'') = ''A''" "upperChar (CHR ''c'') = ''C''" "upperChar (CHR ''d'') = ''D''"
  "upperChar (CHR ''e'') = ''E''" "upperChar (CHR ''i'') = ''I''" "upperChar (CHR ''k'') = ''K''"
  "upperChar (CHR ''l'') = ''L''" "upperChar (CHR ''n'') = ''N''" "upperChar (CHR ''o'') = ''O''"
  "upperChar (CHR ''r'') = ''R''" "upperChar (CHR ''s'') = ''S''" "upperChar (CHR ''t'') = ''T''"
  "upperChar (CHR ''x'') = ''X''" "upperChar (CHR ''y'') = ''Y''"
  "upperChar (CHR ''0'') = ''0''" "upperChar (CHR ''1'') = ''1''" "upperChar (CHR ''2'') = ''2''"
  "upperChar (CHR ''5'') = ''5''" "upperChar (CHR ''7'') = ''7''" "upperChar (CHR ''-'') = ''-''"
  by (simp_all add: upperChar_def char_of_def)

lemma tokenize_two:
  "tokenize ''LIST TODAY'' = [''LIST'', ''TODAY'']" "tokenize ''LIST WEEK'' = [''LIST'', ''WEEK'']"
  "tokenize ''LIST MONTH'' = [''LIST'', ''MONTH'']"
  "tokenize ''SUMMARY TODAY'' = [''SUMMARY'', ''TODAY'']"
  "tokenize ''SUMMARY WEEK'' = [''SUMMARY'', ''WEEK'']"
  "tokenize ''SUMMARY MONTH'' = [''SUMMARY'', ''MONTH'']"
  by (simp_all add: tokenize_def trim_def split_ws.simps toUpperCase_def upperChar_samples
      isWhiteSpace_iff)

lemma tokenize_samples:
  "tokenize ''LIST FROM 2025-02-01 TO 2025-01-01''
     = [''LIST'', ''FROM'', ''2025-02-01'', ''TO'', ''2025-01-01'']"
  "tokenize ''SUMMARY PAST 7 DAYS'' = [''SUMMARY'', ''PAST'', ''7'', ''DAYS'']"
  "tokenize ''list Today extra tokens'' = [''LIST'', ''TODAY'', ''EXTRA'', ''TOKENS'']"
  by (simp_all add: tokenize_def trim_def split_ws.simps toUpperCase_def upperChar_samples
      isWhiteSpace_iff)


text \<open>A no-break space separates tokens as a space does.\<close>

lemma tokenize_no_break_space:
  "tokenize (''LIST'' @ [CHR 0xA0] @ ''TODAY'') = [''LIST'', ''TODAY'']"
  by (simp add: tokenize_def trim_def split_ws.simps toUpperCase_def upperChar_samples
      isWhiteSpace_iff)

text \<open>
  C2 (as amended). At a reading of the clock, an accepted query has \<open>from\<close> on or before
  \<open>to\<close> as calendar days when its range is \<open>TODAY\<close>, \<open>WEEK\<close> or \<open>MONTH\<close>; when it is
  \<open>PAST n DAYS\<close> with a count \<open>n \<ge> 1\<close>, the two readings of the clock fall in one local
  month, and the day \<open>n - 1\<close> days before today, at the time of day of the second
  reading, is within the range of \<open>Date\<close> and not carried to another day by a change
  of the clock; and when it is
  \<open>FROM d1 TO d2\<close> with two date-only literals of days of the calendar, \<open>d1\<close> on or
  before \<open>d2\<close>, between which the offset of the zone does not fall by more than a day.
  (The dates of \<open>FROM ... TO ...\<close> are not compared, and \<open>PAST\<close> accepts counts below 1.)
\<close>

theorem range_not_inverted:
  assumes "clock_reading h now" and "parseQuery h now now2 source = Inr q"
    and "index (tokenize source) 1 = Some ''TODAY''
       \<or> index (tokenize source) 1 = Some ''WEEK''
       \<or> index (tokenize source) 1 = Some ''MONTH''
       \<or> (index (tokenize source) 1 = Some ''PAST''
          \<and> clock_reading h now2 \<and> same_month h now now2
          \<and> (case parseInt (ToString (index (tokenize source) 2)) of
                None \<Rightarrow> False
              | Some n \<Rightarrow> 1 \<le> n \<and> - maxTime \<le> UTC h (daysBefore h now now2 (n - 1))
                         \<and> day_kept h (daysBefore h now now2 (n - 1))))
       \<or> (index (tokenize source) 1 = Some ''FROM''
          \<and> (case literalDay (ToString (index (tokenize source) 2)) of
                None \<Rightarrow> False
              | Some a \<Rightarrow>
                  (case literalDay (ToString (index (tokenize source) 4)) of
                     None \<Rightarrow> False
                   | Some b \<Rightarrow> a \<le> b \<and> steady h (a * msPerDay) (b * msPerDay))))"
  shows "calendar_le (qfrom q) (qto q)"
proof -
  define tokens where "tokens = drop 1 (tokenize source)"
  obtain r where r: "parseTimeRange h now now2 tokens = Inr r"
    and q: "qfrom q = range_from r" "qto q = range_to r"
    using parseQuery_accepted [OF assms(2)] unfolding tokens_def by blast
  have i: "index tokens 0 = index (tokenize source) 1" "index tokens 1 = index (tokenize source) 2"
    "index tokens 3 = index (tokenize source) 4"
    unfolding tokens_def
    using index_drop1 [of "tokenize source" 0] index_drop1 [of "tokenize source" 1]
      index_drop1 [of "tokenize source" 3]
    by (simp_all add: numeral_2_eq_2 eval_nat_numeral)
  consider (today) "index tokens 0 = Some ''TODAY''" | (week) "index tokens 0 = Some ''WEEK''"
    | (month) "index tokens 0 = Some ''MONTH''"
    | (past) n where "index tokens 0 = Some ''PAST''" "clock_reading h now2" "same_month h now now2"
        "parseInt (ToString (index tokens 1)) = Some n" "1 \<le> n"
        "- maxTime \<le> UTC h (daysBefore h now now2 (n - 1))"
        "day_kept h (daysBefore h now now2 (n - 1))"
    | (literals) a b where "index tokens 0 = Some ''FROM''"
        "literalDay (ToString (index tokens 1)) = Some a"
        "literalDay (ToString (index tokens 3)) = Some b" "a \<le> b"
        "steady h (a * msPerDay) (b * msPerDay)"
    using assms(3) unfolding i by (auto split: option.splits)
  then show ?thesis
  proof cases
    case today
    have "parseTimeRange_dates h now now2 tokens = Inr (Some now, Some now)"
      using dates_TODAY [OF today] clock_facts(1) [OF assms(1)]
      by (simp add: Date_of_number_def)
    from parseTimeRange_Inr [OF this] r show ?thesis
      unfolding q by (auto simp: calendar_le_formatDate)
  next
    case week
    from parseTimeRange_Inr [OF dates_WEEK [OF week assms(1)]] r show ?thesis
      unfolding q using WEEK_ordered [OF assms(1), of "mondayOf h now"]
      by (auto simp: calendar_le_formatDate)
  next
    case month
    obtain f l where "parseTimeRange_dates h now now2 tokens = Inr (Some f, Some l)"
      and "localDay h f \<le> localDay h l"
      using dates_MONTH [OF month assms(1)] by blast
    with parseTimeRange_Inr [of h now now2 tokens "Some f" "Some l"] r show ?thesis
      unfolding q by (auto simp: calendar_le_formatDate)
  next
    case past
    have days: "index tokens 2 = Some ''DAYS''"
      using r dates_PAST [OF past(1), of h now now2] past(4)
      unfolding parseTimeRange_def by (auto simp: isNaN_def split: if_splits)
    define t where "t = daysBefore h now now2 (n - 1)"
    have "Day t \<le> 99999961"
      using daysBefore_day [of h now now2 "n - 1"] clock_facts(2) [OF assms(1)] past(5)
      unfolding t_def by simp
    then have "t < 99999962 * 86400000"
      using div_upper [of msPerDay t] unfolding Day_def msPerDay_def by simp
    then have "UTC h t \<le> 8640000000000000"
      using offset_facts(4) [OF assms(1), of t] by simp
    then have "\<bar>UTC h t\<bar> \<le> maxTime"
      using past(6) unfolding t_def maxTime_def by simp
    from PAST_resolved [OF assms(1) past(2,3,1,4) days this [unfolded t_def]] r show ?thesis
      unfolding q using past(5)
      by (auto simp: calendar_le_formatDate day_kept_day [OF past(7)] daysBefore_day)
  next
    case literals
    have len: "\<not> length tokens < 4"
      using r dates_FROM [OF literals(1), of h now now2]
      unfolding parseTimeRange_def by (auto split: if_splits)
    then obtain s1 s2 where s: "index tokens 1 = Some s1" "index tokens 3 = Some s2"
      unfolding index_def by simp
    note d1 = Date_of_string_literal [OF literals(2) [unfolded s ToString_def, simplified], of h]
    note d2 = Date_of_string_literal [OF literals(3) [unfolded s ToString_def, simplified], of h]
    have "parseTimeRange_dates h now now2 tokens = Inr (Some (a * msPerDay), Some (b * msPerDay))"
      using r len unfolding parseTimeRange_def dates_FROM [OF literals(1)] s d1 d2
      by (auto simp: isNaN_def getTime_def split: if_splits)
    from parseTimeRange_Inr [OF this] r show ?thesis
      unfolding q using literals_ordered [OF literals(4,5)]
      by (auto simp: calendar_le_formatDate)
  qed
qed


lemma iso_samples:
  "iso_date_only ''2025-02-01'' = Some (2025, 2, 1)" "iso_date_only ''2025-01-01'' = Some (2025, 1, 1)"
  "iso_date_only ''2025-01-31'' = Some (2025, 1, 31)" "iso_date_only ''0999-01-01'' = Some (999, 1, 1)"
  by (simp_all add: iso_date_only_def isDigit_iff radix_value_def digit_of_10)

lemma Date_of_string_samples:
  "Date_of_string h (Some ''2025-02-01'') = Some (civilDay 2025 2 1 * msPerDay)"
  "Date_of_string h (Some ''2025-01-01'') = Some (civilDay 2025 1 1 * msPerDay)"
  "Date_of_string h (Some ''2025-01-31'') = Some (civilDay 2025 1 31 * msPerDay)"
  "Date_of_string h (Some ''0999-01-01'') = Some (civilDay 999 1 1 * msPerDay)"
  by (rule Date_of_string_iso, rule iso_samples, simp_all add: DaysInMonth_def DaysInYear_def)+

lemma formatDate_samples:
  "formatDate \<lparr>LocalTZA = (\<lambda>t isUTC. 3600000), parseOther = (\<lambda>s. None)\<rparr>
      (Some (civilDay 2025 2 1 * msPerDay)) = ''2025-02-01''"
  "formatDate \<lparr>LocalTZA = (\<lambda>t isUTC. 3600000), parseOther = (\<lambda>s. None)\<rparr>
      (Some (civilDay 2025 1 1 * msPerDay)) = ''2025-01-01''"
  "formatDate \<lparr>LocalTZA = (\<lambda>t isUTC. 3600000), parseOther = (\<lambda>s. None)\<rparr>
      (Some 1761818400000) = ''2025-10-30''"
  "formatDate \<lparr>LocalTZA = (\<lambda>t isUTC. - 18000000), parseOther = (\<lambda>s. None)\<rparr>
      (Some (civilDay 2025 1 1 * msPerDay)) = ''2024-12-31''"
  "formatDate \<lparr>LocalTZA = (\<lambda>t isUTC. - 18000000), parseOther = (\<lambda>s. None)\<rparr>
      (Some (civilDay 2025 1 31 * msPerDay)) = ''2025-01-30''"
  "formatDate \<lparr>LocalTZA = (\<lambda>t isUTC. 0), parseOther = (\<lambda>s. None)\<rparr>
      (Some (civilDay 999 1 1 * msPerDay)) = ''999-01-01''"
proof -
  have d: "localDay \<lparr>LocalTZA = (\<lambda>t isUTC. 3600000), parseOther = (\<lambda>s. None)\<rparr>
             (civilDay 2025 2 1 * msPerDay) = civilDay 2025 2 1"
    "localDay \<lparr>LocalTZA = (\<lambda>t isUTC. 3600000), parseOther = (\<lambda>s. None)\<rparr>
             (civilDay 2025 1 1 * msPerDay) = civilDay 2025 1 1"
    "localDay \<lparr>LocalTZA = (\<lambda>t isUTC. 3600000), parseOther = (\<lambda>s. None)\<rparr> 1761818400000
       = civilDay 2025 10 30"
    "localDay \<lparr>LocalTZA = (\<lambda>t isUTC. - 18000000), parseOther = (\<lambda>s. None)\<rparr>
             (civilDay 2025 1 1 * msPerDay) = civilDay 2024 12 31"
    "localDay \<lparr>LocalTZA = (\<lambda>t isUTC. - 18000000), parseOther = (\<lambda>s. None)\<rparr>
             (civilDay 2025 1 31 * msPerDay) = civilDay 2025 1 30"
    "localDay \<lparr>LocalTZA = (\<lambda>t isUTC. 0), parseOther = (\<lambda>s. None)\<rparr>
             (civilDay 999 1 1 * msPerDay) = civilDay 999 1 1"
    by (simp_all add: fixed_zone civilDay_samples Day_def msPerDay_def)
  show "formatDate \<lparr>LocalTZA = (\<lambda>t isUTC. 3600000), parseOther = (\<lambda>s. None)\<rparr>
      (Some (civilDay 2025 2 1 * msPerDay)) = ''2025-02-01''"
    by (subst formatDate_civil [OF _ _ _ _ d(1)])
      (simp_all add: DaysInMonth_def DaysInYear_def Number_toString_def digits_samples padStart2_def)
  show "formatDate \<lparr>LocalTZA = (\<lambda>t isUTC. 3600000), parseOther = (\<lambda>s. None)\<rparr>
      (Some (civilDay 2025 1 1 * msPerDay)) = ''2025-01-01''"
    by (subst formatDate_civil [OF _ _ _ _ d(2)])
      (simp_all add: DaysInMonth_def Number_toString_def digits_samples padStart2_def)
  show "formatDate \<lparr>LocalTZA = (\<lambda>t isUTC. 3600000), parseOther = (\<lambda>s. None)\<rparr>
      (Some 1761818400000) = ''2025-10-30''"
    by (subst formatDate_civil [OF _ _ _ _ d(3)])
      (simp_all add: DaysInMonth_def Number_toString_def digits_samples padStart2_def)
  show "formatDate \<lparr>LocalTZA = (\<lambda>t isUTC. - 18000000), parseOther = (\<lambda>s. None)\<rparr>
      (Some (civilDay 2025 1 1 * msPerDay)) = ''2024-12-31''"
    by (subst formatDate_civil [OF _ _ _ _ d(4)])
      (simp_all add: DaysInMonth_def Number_toString_def digits_samples padStart2_def)
  show "formatDate \<lparr>LocalTZA = (\<lambda>t isUTC. - 18000000), parseOther = (\<lambda>s. None)\<rparr>
      (Some (civilDay 2025 1 31 * msPerDay)) = ''2025-01-30''"
    by (subst formatDate_civil [OF _ _ _ _ d(5)])
      (simp_all add: DaysInMonth_def Number_toString_def digits_samples padStart2_def)
  show "formatDate \<lparr>LocalTZA = (\<lambda>t isUTC. 0), parseOther = (\<lambda>s. None)\<rparr>
      (Some (civilDay 999 1 1 * msPerDay)) = ''999-01-01''"
    by (subst formatDate_civil [OF _ _ _ _ d(6)])
      (simp_all add: DaysInMonth_def Number_toString_def digits_samples padStart2_def)
qed

text \<open>
  C2 as stated fails: \<open>FROM 2025-02-01 TO 2025-01-01\<close> is accepted, and the query it
  gives runs from 1 February back to 1 January.
\<close>

theorem FROM_after_TO_accepted:
  "parseQuery \<lparr>LocalTZA = (\<lambda>t isUTC. 3600000), parseOther = (\<lambda>s. None)\<rparr>
       1762336800000 1762336800000 ''LIST FROM 2025-02-01 TO 2025-01-01''
     = Inr \<lparr>qtype = LIST, qfrom = ''2025-02-01'', qto = ''2025-01-01''\<rparr>
   \<and> \<not> calendar_le ''2025-02-01'' ''2025-01-01''"
proof -
  have "\<not> calendar_le
          (formatDate \<lparr>LocalTZA = (\<lambda>t isUTC. 3600000), parseOther = (\<lambda>s. None)\<rparr>
             (Some (civilDay 2025 2 1 * msPerDay)))
          (formatDate \<lparr>LocalTZA = (\<lambda>t isUTC. 3600000), parseOther = (\<lambda>s. None)\<rparr>
             (Some (civilDay 2025 1 1 * msPerDay)))"
    unfolding calendar_le_formatDate
    by (simp add: fixed_zone Day_def msPerDay_def civilDay_samples)
  then show ?thesis
    unfolding formatDate_samples
    by (simp add: parseQuery_tokens [OF tokenize_samples(1)]
        dates_FROM_iso [OF Date_of_string_samples(1) Date_of_string_samples(2)] formatDate_samples)
qed

theorem range_not_inverted_witness:
  "parseQuery \<lparr>LocalTZA = (\<lambda>t isUTC. 3600000), parseOther = (\<lambda>s. None)\<rparr>
       1762336800000 1762336800000 ''SUMMARY PAST 7 DAYS''
     = Inr \<lparr>qtype = SUMMARY, qfrom = ''2025-10-30'', qto = ''2025-11-05''\<rparr>
   \<and> calendar_le ''2025-10-30'' ''2025-11-05''"
proof -
  define h where "h = \<lparr>LocalTZA = (\<lambda>t isUTC. 3600000 :: int), parseOther = (\<lambda>s :: string. None :: int option)\<rparr>"
  have c: "clock_reading h 1762336800000"
    unfolding h_def by (rule fixed_zone_reading) simp_all
  have u: "UTC h (daysBefore h 1762336800000 1762336800000 6) = 1761818400000"
    unfolding h_def by (simp add: daysBefore_def fixed_zone Day_def TimeWithinDay_def msPerDay_def)
  have "parseTimeRange h 1762336800000 1762336800000 [''PAST'', ''7'', ''DAYS'']
          = Inr \<lparr>range_from = ''2025-10-30'', range_to = ''2025-11-05''\<rparr>"
    by (subst PAST_resolved [OF c c same_month_refl, where n = 7])
      (simp_all add: index_def ToString_def parseInt_samples u maxTime_def
        formatDate_samples(3) [folded h_def] sample_2025_11_05 [folded h_def])
  then have q: "parseQuery h 1762336800000 1762336800000 ''SUMMARY PAST 7 DAYS''
     = Inr \<lparr>qtype = SUMMARY, qfrom = ''2025-10-30'', qto = ''2025-11-05''\<rparr>"
    by (simp add: parseQuery_tokens [OF tokenize_samples(2)])
  have o: "day_kept h t" for t unfolding h_def by (rule fixed_zone)
  show ?thesis
    using range_not_inverted [OF c q] q
    unfolding h_def [symmetric]
    by (simp add: tokenize_samples index_def ToString_def parseInt_samples u maxTime_def c
        same_month_refl o)
qed

text \<open>
  C4 fails in a time zone west of UTC. A date-only literal is read as midnight UTC, and
  \<open>formatDate\<close> writes the local date of that instant, which is the day before: at
  UTC-5, \<open>FROM 2025-01-01 TO 2025-01-31\<close> resolves to 31 December 2024 and 30 January 2025.
\<close>

theorem FROM_TO_west_of_UTC:
  "parseTimeRange \<lparr>LocalTZA = (\<lambda>t isUTC. - 18000000), parseOther = (\<lambda>s. None)\<rparr> now now2
       [''FROM'', ''2025-01-01'', ''TO'', ''2025-01-31'']
     = Inr \<lparr>range_from = ''2024-12-31'', range_to = ''2025-01-30''\<rparr>"
  by (simp add: dates_FROM_iso [OF Date_of_string_samples(2) Date_of_string_samples(3)]
      formatDate_samples)

text \<open>The year of a date before 1000 loses its leading zeros, in every time zone.\<close>

lemma FROM_TO_year_999:
  "parseTimeRange \<lparr>LocalTZA = (\<lambda>t isUTC. 0), parseOther = (\<lambda>s. None)\<rparr> now now2
       [''FROM'', ''0999-01-01'', ''TO'', ''0999-01-01'']
     = Inr \<lparr>range_from = ''999-01-01'', range_to = ''999-01-01''\<rparr>"
  by (simp add: dates_FROM_iso [OF Date_of_string_samples(4) Date_of_string_samples(4)]
      formatDate_samples)

text \<open>
  C10. A source whose tokens, in upper case, start with \<open>LIST\<close> or \<open>SUMMARY\<close> and then
  \<open>TODAY\<close>, \<open>WEEK\<close> or \<open>MONTH\<close> is accepted, and parses to the query of these two tokens
  alone: the tokens that follow are ignored.
\<close>

theorem trailing_tokens_ignored:
  assumes "tokenize source = ty # r # extra" and "ty = ''LIST'' \<or> ty = ''SUMMARY''"
    and "r = ''TODAY'' \<or> r = ''WEEK'' \<or> r = ''MONTH''"
  shows "parseQuery h now now2 source = parseQuery h now now2 (ty @ '' '' @ r)
       \<and> \<not> isl (parseQuery h now now2 source)"
proof -
  have t: "tokenize (ty @ '' '' @ r) = ty # r # []"
    using assms(2,3) by (auto simp: tokenize_two)
  note p = dates_prefix [OF assms(3), of h now now2 extra]
  have e: "parseTimeRange h now now2 (r # extra) = parseTimeRange h now now2 [r]"
    using p(1) by (simp add: parseTimeRange_def)
  obtain f l where "parseTimeRange_dates h now now2 (r # extra) = Inr (f, l)"
    using p(2) by (cases "parseTimeRange_dates h now now2 (r # extra)") auto
  from parseTimeRange_Inr [OF this]
  have a: "parseTimeRange h now now2 [r]
             = Inr \<lparr>range_from = formatDate h f, range_to = formatDate h l\<rparr>"
    unfolding e .
  show ?thesis
    unfolding parseQuery_tokens [OF assms(1,2)] parseQuery_tokens [OF t assms(2)] e a
    by simp
qed

theorem trailing_tokens_ignored_witness:
  "parseQuery \<lparr>LocalTZA = (\<lambda>t isUTC. 3600000), parseOther = (\<lambda>s. None)\<rparr>
       1762336800000 1762336800000 ''list Today extra tokens''
     = parseQuery \<lparr>LocalTZA = (\<lambda>t isUTC. 3600000), parseOther = (\<lambda>s. None)\<rparr>
         1762336800000 1762336800000 ''LIST TODAY''
   \<and> \<not> isl (parseQuery \<lparr>LocalTZA = (\<lambda>t isUTC. 3600000), parseOther = (\<lambda>s. None)\<rparr>
               1762336800000 1762336800000 ''list Today extra tokens'')"
  using trailing_tokens_ignored [of "''list Today extra tokens''" "''LIST''" "''TODAY''"
      "[''EXTRA'', ''TOKENS'']" "\<lparr>LocalTZA = (\<lambda>t isUTC. 3600000), parseOther = (\<lambda>s. None)\<rparr>"
      1762336800000 1762336800000] tokenize_samples(3)
  by auto

section \<open>Claims about the query executor\<close>

text \<open>Whatever the plugin answers, \<open>getTimeEntries\<close> returns an array, and an array is truthy.\<close>

lemma getTimeEntries_failed:
  "getTimeEntries \<lparr>userId = u, request = (\<lambda>endpoint. None)\<rparr> query = []"
  "getTimeEntries \<lparr>userId = None, request = r\<rparr> query = []"
  by (simp_all add: getTimeEntries_def)

lemma getTimeEntries_no_entries:
  "getTimeEntries \<lparr>userId = Some 1, request = (\<lambda>endpoint. Some \<lparr>time_entries = []\<rparr>)\<rparr> query = []"
  by (simp add: getTimeEntries_def)

text \<open>The message for a failed fetch is never what the block shows.\<close>

lemma failed_to_fetch_never_shown:
  "shown (hqlProcessor ar h now now2 p c source) \<noteq> Text ''Failed to fetch Harvest report.''"
  unfolding hqlProcessor_def Let_def truthy_array_def failed_def
  by (simp split: sum.split error.split option.split prod.split)

lemma query_LIST_TODAY:
  "parseQuery \<lparr>LocalTZA = (\<lambda>t isUTC. 3600000), parseOther = (\<lambda>s. None)\<rparr> 1762336800000 now2
       ''LIST TODAY''
     = Inr \<lparr>qtype = LIST, qfrom = ''2025-11-05'', qto = ''2025-11-05''\<rparr>"
proof -
  have "parseTimeRange_dates \<lparr>LocalTZA = (\<lambda>t isUTC. 3600000), parseOther = (\<lambda>s. None)\<rparr>
          1762336800000 now2 [''TODAY'']
          = Inr (Some 1762336800000, Some 1762336800000)"
    by (subst dates_TODAY)
      (simp_all add: index_def Date_of_number_def TimeClip_def maxTime_def)
  from parseTimeRange_Inr [OF this] show ?thesis
    by (simp add: parseQuery_tokens [OF tokenize_two(1)] sample_2025_11_05)
qed

text \<open>
  C1 fails. With the service unreachable (\<open>request\<close> answers \<open>null\<close>), the block
  \<open>LIST TODAY\<close> shows \<open>No time entries found for the selected period.\<close>, exactly what it
  shows when the service answers with no entries; \<open>Failed to fetch Harvest report.\<close>
  is not shown.
\<close>

theorem fetch_failure_shown_as_no_entries:
  "hqlProcessor ar \<lparr>LocalTZA = (\<lambda>t isUTC. 3600000), parseOther = (\<lambda>s. None)\<rparr> 1762336800000 now2
       \<lparr>userId = Some 1, request = (\<lambda>endpoint. None)\<rparr> c ''LIST TODAY''
     = \<lparr>shown = Rendered (NoEntries ''No time entries found for the selected period.''),
        written = None\<rparr>
   \<and> hqlProcessor ar \<lparr>LocalTZA = (\<lambda>t isUTC. 3600000), parseOther = (\<lambda>s. None)\<rparr> 1762336800000 now2
       \<lparr>userId = Some 1, request = (\<lambda>endpoint. Some \<lparr>time_entries = []\<rparr>)\<rparr> c ''LIST TODAY''
     = \<lparr>shown = Rendered (NoEntries ''No time entries found for the selected period.''),
        written = None\<rparr>"
proof -
  have s: "str_includes ''LIST TODAY'' ''--static'' = False"
    "trim (str_replace ''LIST TODAY'' ''--static'' []) = ''LIST TODAY''"
    by (simp_all add: trim_def isWhiteSpace_iff)
  show ?thesis
    unfolding hqlProcessor_def Let_def s query_LIST_TODAY getTimeEntries_failed
      getTimeEntries_no_entries
    by (simp add: truthy_array_def renderReport_def)
qed

section \<open>The summary\<close>

subsection \<open>The totals of the projects\<close>

lemma summaryTotals_snoc: "summaryTotals ar (xs @ [e]) = addEntry ar (summaryTotals ar xs) e"
  by (simp add: summaryTotals_def)

lemma firstEncountered_snoc:
  "firstEncountered (ys @ [n]) = (if n \<in> set ys then firstEncountered ys else firstEncountered ys @ [n])"
  by (simp add: firstEncountered_def)

lemma firstEncountered_set: "set (firstEncountered ys) = set ys"
  by (simp add: firstEncountered_def)

lemma firstEncountered_distinct: "distinct (firstEncountered ys)"
  by (simp add: firstEncountered_def)

lemma projectHours_snoc:
  "projectHours ar (xs @ [e]) k
     = (if project_name (project e) = k
        then fadd ar (case projectHours ar xs k of None \<Rightarrow> fzero ar | Some y \<Rightarrow> y) (hours e)
        else projectHours ar xs k)"
  by (simp add: projectHours_def)

lemma projectHours_absent:
  "k \<notin> set (projectNames xs) \<Longrightarrow> projectHours ar xs k = Some (fzero ar)"
proof -
  assume "k \<notin> set (projectNames xs)"
  then have "filter (\<lambda>e. project_name (project e) = k) xs = []"
    by (auto simp: projectNames_def filter_empty_conv)
  then show ?thesis by (simp add: projectHours_def)
qed

lemma proto_inherited: "''__proto__'' \<in> set inherited"
  by (simp add: inherited_def)

text \<open>One step of the loop, by the kind of the project's name.\<close>

lemma addEntry_proto:
  assumes "project_name (project e) = ''__proto__''" and "map_of pt ''__proto__'' = None"
  shows "addEntry ar (T, pt) e = (fplus ar T (hours e), pt)"
  using assms proto_inherited
  by (simp add: addEntry_def Let_def Get_def Put_def truthy_def)

lemma addEntry_inherited:
  assumes "project_name (project e) \<in> set inherited" and "project_name (project e) \<noteq> ''__proto__''"
    and "map_of pt (project_name (project e)) = None \<or> map_of pt (project_name (project e)) = Some Other"
  shows "addEntry ar (T, pt) e
           = (fplus ar T (hours e), AList.update (project_name (project e)) Other pt)"
  using assms
  by (auto simp: addEntry_def Let_def Get_def Put_def truthy_def js_add_def)

lemma addEntry_new:
  assumes "project_name (project e) \<notin> set inherited"
    and "map_of pt (project_name (project e)) = None"
  shows "addEntry ar (T, pt) e
           = (fplus ar T (hours e),
              AList.update (project_name (project e)) (Number (fadd ar (fzero ar) (hours e))) pt)"
proof -
  have "project_name (project e) \<noteq> ''__proto__''" using assms(1) proto_inherited by auto
  then show ?thesis
    using assms
    by (simp add: addEntry_def Let_def Get_def Put_def truthy_def js_add_def fplus_def update_conv')
qed

lemma addEntry_old:
  assumes "project_name (project e) \<notin> set inherited"
    and "map_of pt (project_name (project e)) = Some (Number a)"
  shows "addEntry ar (T, pt) e
           = (fplus ar T (hours e),
              AList.update (project_name (project e))
                (Number (fadd ar (case a of None \<Rightarrow> fzero ar | Some y \<Rightarrow> y) (hours e))) pt)"
proof -
  have "project_name (project e) \<noteq> ''__proto__''" using assms(1) proto_inherited by auto
  then show ?thesis
    using assms
    by (cases a)
      (auto simp: addEntry_def Let_def Get_def Put_def truthy_def js_add_def fplus_def update_conv')
qed

text \<open>
  What the loop has computed after the entries \<open>xs\<close>: the total, the names of the
  projects in the order of their first entries (\<open>__proto__\<close> is never created), and
  the value under each name.
\<close>

lemma totals_invariant:
  "fst (summaryTotals ar xs) = foldl (fplus ar) (Some (fzero ar)) (map hours xs)
   \<and> map fst (snd (summaryTotals ar xs))
       = firstEncountered (filter (\<lambda>n. n \<noteq> ''__proto__'') (projectNames xs))
   \<and> (\<forall>k \<in> set (map fst (snd (summaryTotals ar xs))).
         map_of (snd (summaryTotals ar xs)) k
           = Some (if k \<in> set inherited then Other else Number (projectHours ar xs k)))"
proof (induction xs rule: rev_induct)
  case Nil
  show ?case by (simp add: summaryTotals_def firstEncountered_def projectNames_def)
next
  case (snoc e xs)
  define T where "T = fst (summaryTotals ar xs)"
  define pt where "pt = snd (summaryTotals ar xs)"
  define n where "n = project_name (project e)"
  define h where "h = hours e"
  have st: "summaryTotals ar (xs @ [e]) = addEntry ar (T, pt) e"
    by (simp add: summaryTotals_snoc T_def pt_def)
  have I1: "T = foldl (fplus ar) (Some (fzero ar)) (map hours xs)"
    and I2: "map fst pt = firstEncountered (filter (\<lambda>n. n \<noteq> ''__proto__'') (projectNames xs))"
    and I3: "\<And>k. k \<in> set (map fst pt) \<Longrightarrow>
               map_of pt k = Some (if k \<in> set inherited then Other else Number (projectHours ar xs k))"
    using snoc unfolding T_def pt_def by blast+
  have keys: "set (map fst pt) = set (projectNames xs) - {''__proto__''}"
    unfolding I2 firstEncountered_set by auto
  have absent: "map_of pt k = None" if "k \<notin> set (map fst pt)" for k
    using that by (simp add: map_of_eq_None_iff)
  have names: "projectNames (xs @ [e]) = projectNames xs @ [n]"
    by (simp add: projectNames_def n_def)
  have fe: "firstEncountered (filter (\<lambda>n. n \<noteq> ''__proto__'') (projectNames (xs @ [e])))
              = (if n = ''__proto__'' \<or> n \<in> set (map fst pt) then map fst pt else map fst pt @ [n])"
    unfolding names I2 by (auto simp: firstEncountered_snoc firstEncountered_set)
  have ph: "projectHours ar (xs @ [e]) k
              = (if n = k
                 then fadd ar (case projectHours ar xs k of None \<Rightarrow> fzero ar | Some y \<Rightarrow> y) h
                 else projectHours ar xs k)" for k
    unfolding n_def h_def by (rule projectHours_snoc)
  have tot: "foldl (fplus ar) (Some (fzero ar)) (map hours (xs @ [e])) = fplus ar T h"
    by (simp add: I1 h_def)
  consider (proto) "n = ''__proto__''"
    | (inh) "n \<in> set inherited" "n \<noteq> ''__proto__''"
    | (new) "n \<notin> set inherited" "n \<notin> set (map fst pt)"
    | (old) "n \<notin> set inherited" "n \<in> set (map fst pt)"
    by blast
  then show ?case
  proof cases
    case proto
    have "''__proto__'' \<notin> set (map fst pt)" using keys by simp
    then have "addEntry ar (T, pt) e = (fplus ar T h, pt)"
      unfolding h_def using proto absent by (intro addEntry_proto) (simp_all add: n_def)
    moreover have "k \<noteq> n" if "k \<in> set (map fst pt)" for k
      using that keys proto by auto
    ultimately show ?thesis
      unfolding st fe tot using proto I3 by (auto simp: ph)
  next
    case inh
    have "map_of pt n = None \<or> map_of pt n = Some Other"
      using I3 [of n] absent [of n] inh(1) by (cases "n \<in> set (map fst pt)") auto
    then have a: "addEntry ar (T, pt) e = (fplus ar T h, AList.update n Other pt)"
      unfolding h_def n_def using inh by (intro addEntry_inherited) (simp_all add: n_def)
    show ?thesis
      unfolding st fe tot a using inh I3
      by (auto simp: update_keys update_conv' ph)
  next
    case new
    have a: "addEntry ar (T, pt) e
               = (fplus ar T h, AList.update n (Number (fadd ar (fzero ar) h)) pt)"
      unfolding h_def n_def using new absent [of n] by (intro addEntry_new) (simp_all add: n_def)
    have "n \<noteq> ''__proto__''" using new(1) proto_inherited by auto
    then have "n \<notin> set (projectNames xs)" using new(2) keys by auto
    then have z: "projectHours ar xs n = Some (fzero ar)" by (rule projectHours_absent)
    show ?thesis
      unfolding st fe tot a using new I3 z \<open>n \<noteq> ''__proto__''\<close>
      by (auto simp: update_keys update_conv' ph)
  next
    case old
    have "map_of pt n = Some (Number (projectHours ar xs n))"
      using I3 [OF old(2)] old(1) by simp
    then have a: "addEntry ar (T, pt) e
        = (fplus ar T h,
           AList.update n
             (Number (fadd ar (case projectHours ar xs n of None \<Rightarrow> fzero ar | Some y \<Rightarrow> y) h)) pt)"
      unfolding h_def n_def using old(1) by (intro addEntry_old) (simp_all add: n_def)
    show ?thesis
      unfolding st fe tot a using old I3
      by (auto simp: update_keys update_conv' ph)
  qed
qed

lemma total_of_hours:
  "fst (summaryTotals ar xs) = foldl (fplus ar) (Some (fzero ar)) (map hours xs)"
  using totals_invariant [of ar xs] by blast

lemma names_of_totals:
  "map fst (snd (summaryTotals ar xs))
     = firstEncountered (filter (\<lambda>n. n \<noteq> ''__proto__'') (projectNames xs))"
  using totals_invariant [of ar xs] by blast

lemma value_of_totals:
  assumes "k \<in> set (map fst (snd (summaryTotals ar xs)))"
  shows "map_of (snd (summaryTotals ar xs)) k
           = Some (if k \<in> set inherited then Other else Number (projectHours ar xs k))"
  using totals_invariant [of ar xs] assms by blast

lemma Get_total:
  assumes "k \<in> set (map fst (snd (summaryTotals ar xs)))" and "k \<notin> set inherited"
  shows "Get (snd (summaryTotals ar xs)) k = Number (projectHours ar xs k)"
  unfolding Get_def value_of_totals [OF assms(1)] using assms(2) by simp

lemma Get_inherited:
  assumes "k \<in> set (map fst (snd (summaryTotals ar xs)))" and "k \<in> set inherited"
  shows "Get (snd (summaryTotals ar xs)) k = Other"
  unfolding Get_def value_of_totals [OF assms(1)] using assms(2) by simp

lemma keys_of_totals:
  "set (map fst (snd (summaryTotals ar xs))) = set (projectNames xs) - {''__proto__''}"
  unfolding names_of_totals firstEncountered_set by auto

lemma no_proto:
  assumes "\<forall>e \<in> set entries. project_name (project e) \<notin> set inherited"
  shows "filter (\<lambda>n. n \<noteq> ''__proto__'') (projectNames entries) = projectNames entries"
  using assms proto_inherited by (auto simp: projectNames_def filter_id_conv)

subsection \<open>The order of the projects\<close>

lemma Object_keys_propertyOrder: "Object_keys obj = propertyOrder (map fst obj)"
  by (simp add: Object_keys_def propertyOrder_def)

lemma propertyOrder_set: "set (propertyOrder names) = set names"
  by (auto simp: propertyOrder_def)

text \<open>The sort: a permutation in descending order that keeps equal keys in their order.\<close>

lemma insertDesc_set: "set (insertDesc f x ys) = insert x (set ys)"
  by (induction ys) auto

lemma sortDesc_Cons: "sortDesc f (x # xs) = insertDesc f x (sortDesc f xs)"
  by (simp add: sortDesc_def)

lemma sortDesc_set: "set (sortDesc f xs) = set xs"
  by (induction xs) (simp_all add: sortDesc_def insertDesc_set)

lemma insertDesc_sorted:
  "sorted_wrt (\<lambda>a b. f b \<le> f a) ys \<Longrightarrow> sorted_wrt (\<lambda>a b. f b \<le> f a) (insertDesc f x ys)"
  by (induction ys) (auto simp: insertDesc_set)

lemma sortDesc_sorted: "sorted_wrt (\<lambda>a b. f b \<le> f a) (sortDesc f xs)"
  by (induction xs) (simp_all add: sortDesc_Cons insertDesc_sorted, simp add: sortDesc_def)

lemma insertDesc_filter:
  "filter (\<lambda>y. f y = k) (insertDesc f x ys)
     = (if f x = k then x # filter (\<lambda>y. f y = k) ys else filter (\<lambda>y. f y = k) ys)"
  by (induction ys) auto

lemma sortDesc_stable: "filter (\<lambda>y. f y = k) (sortDesc f xs) = filter (\<lambda>y. f y = k) xs"
  by (induction xs) (simp_all add: sortDesc_Cons insertDesc_filter, simp add: sortDesc_def)

lemma insertDesc_agree:
  assumes "f x = g x" and "\<forall>y \<in> set ys. f y = g y"
  shows "insertDesc f x ys = insertDesc g x ys"
  using assms by (induction ys) simp_all

lemma sortDesc_agree:
  assumes "\<forall>y \<in> set ys. f y = g y"
  shows "sortDesc f ys = sortDesc g ys"
  using assms
proof (induction ys)
  case Nil
  show ?case by (simp add: sortDesc_def)
next
  case (Cons y ys)
  then have "sortDesc f ys = sortDesc g ys" by simp
  moreover have "insertDesc f y (sortDesc g ys) = insertDesc g y (sortDesc g ys)"
    using Cons.prems by (intro insertDesc_agree) (simp_all add: sortDesc_set)
  ultimately show ?case by (simp add: sortDesc_Cons)
qed

lemma sortedProjects_set: "set (sortedProjects ar obj) = set (map fst obj)"
  by (simp add: sortedProjects_def sortDesc_set Object_keys_propertyOrder propertyOrder_set)


lemma sortedProjects_of_totals:
  assumes "\<forall>e \<in> set entries. project_name (project e) \<notin> set inherited"
  shows "sortedProjects ar (snd (summaryTotals ar entries))
           = sortDesc (\<lambda>n. case projectHours ar entries n of None \<Rightarrow> fzero ar | Some x \<Rightarrow> x)
               (propertyOrder (firstEncountered (projectNames entries)))"
proof -
  have keys: "map fst (snd (summaryTotals ar entries)) = firstEncountered (projectNames entries)"
    unfolding names_of_totals no_proto [OF assms] ..
  have "sortKey ar (snd (summaryTotals ar entries)) k
          = (case projectHours ar entries k of None \<Rightarrow> fzero ar | Some x \<Rightarrow> x)"
    if "k \<in> set (Object_keys (snd (summaryTotals ar entries)))" for k
  proof -
    have k: "k \<in> set (map fst (snd (summaryTotals ar entries)))"
      using that unfolding Object_keys_propertyOrder propertyOrder_set .
    then have "k \<in> set (projectNames entries)" unfolding keys firstEncountered_set .
    then have "k \<notin> set inherited" using assms by (auto simp: projectNames_def)
    from Get_total [OF k this] show ?thesis
      by (simp add: sortKey_def split: option.split)
  qed
  then have "sortDesc (sortKey ar (snd (summaryTotals ar entries)))
                (Object_keys (snd (summaryTotals ar entries)))
           = sortDesc (\<lambda>n. case projectHours ar entries n of None \<Rightarrow> fzero ar | Some x \<Rightarrow> x)
                (Object_keys (snd (summaryTotals ar entries)))"
    by (intro sortDesc_agree) blast
  then show ?thesis
    unfolding sortedProjects_def Object_keys_propertyOrder keys .
qed

text \<open>
  C9 (as amended). When no project has the name of a member that \<open>{}\<close> inherits and
  the hours of every project, as the loop adds them, are a number, the projects are in
  the order of descending hours, and projects with the same hours are in the order in
  which the object lists their names: the names that are array indices in ascending
  order, then the other names in the order of their first entries.
\<close>

theorem projects_order:
  assumes "\<forall>e \<in> set entries. project_name (project e) \<notin> set inherited"
    and "\<forall>e \<in> set entries. projectHours ar entries (project_name (project e)) \<noteq> None"
  shows "sorted_wrt (\<lambda>a b. \<exists>x y. projectHours ar entries a = Some x
                             \<and> projectHours ar entries b = Some y \<and> y \<le> x)
           (sortedProjects ar (snd (summaryTotals ar entries)))
       \<and> (\<forall>x. filter (\<lambda>n. projectHours ar entries n = x)
                 (sortedProjects ar (snd (summaryTotals ar entries)))
              = filter (\<lambda>n. projectHours ar entries n = x)
                  (propertyOrder (firstEncountered (projectNames entries))))"
proof -
  define ks where "ks = propertyOrder (firstEncountered (projectNames entries))"
  define g where "g = (\<lambda>n. case projectHours ar entries n of None \<Rightarrow> fzero ar | Some x \<Rightarrow> x)"
  have sp: "sortedProjects ar (snd (summaryTotals ar entries)) = sortDesc g ks"
    unfolding ks_def g_def by (rule sortedProjects_of_totals [OF assms(1)])
  have num: "projectHours ar entries n = Some (g n)" if "n \<in> set ks" for n
  proof -
    have "n \<in> set (projectNames entries)"
      using that unfolding ks_def propertyOrder_set firstEncountered_set .
    then have "projectHours ar entries n \<noteq> None"
      using assms(2) by (auto simp: projectNames_def)
    then show ?thesis unfolding g_def by auto
  qed
  have "sorted_wrt (\<lambda>a b. g b \<le> g a) (sortDesc g ks)" by (rule sortDesc_sorted)
  then have a: "sorted_wrt (\<lambda>a b. \<exists>x y. projectHours ar entries a = Some x
                             \<and> projectHours ar entries b = Some y \<and> y \<le> x) (sortDesc g ks)"
    by (rule sorted_wrt_mono_rel [rotated]) (simp add: num sortDesc_set)
  have b: "filter (\<lambda>n. projectHours ar entries n = x) (sortDesc g ks)
             = filter (\<lambda>n. projectHours ar entries n = x) ks" for x
  proof (cases x)
    case None
    have "filter (\<lambda>n. projectHours ar entries n = None) zs = []" if "set zs = set ks" for zs
      using that num by (auto simp: filter_empty_conv)
    then show ?thesis unfolding None by (simp add: sortDesc_set)
  next
    case (Some k)
    have "filter (\<lambda>n. projectHours ar entries n = Some k) zs = filter (\<lambda>n. g n = k) zs"
      if "set zs = set ks" for zs
      using that num by (intro filter_cong) auto
    then show ?thesis
      unfolding Some using sortDesc_stable [of g k ks] by (simp add: sortDesc_set)
  qed
  show ?thesis
    unfolding sp ks_def [symmetric] using a b by blast
qed

text \<open>When moreover no name is an array index, that order is the order of the first entries.\<close>

lemma ties_first_encountered:
  assumes "\<forall>e \<in> set entries. arrayIndex (project_name (project e)) = None"
  shows "propertyOrder (firstEncountered (projectNames entries))
           = firstEncountered (projectNames entries)"
proof -
  have "\<forall>k \<in> set (firstEncountered (projectNames entries)). arrayIndex k = None"
    unfolding firstEncountered_set using assms by (auto simp: projectNames_def)
  then show ?thesis
    by (simp add: propertyOrder_def filter_id_conv filter_empty_conv)
qed

subsection \<open>The bars of the chart\<close>

lemma barChart_bars:
  assumes "barChart ar T obj i names = Inr bars"
  shows "map bar_name bars = names
       \<and> (\<forall>b \<in> set bars. bar_width b = percentage ar T (Get obj (bar_name b)))
       \<and> (\<forall>k \<in> set names. \<not> isl (toFixed2 (Get obj k)))"
  using assms
proof (induction names arbitrary: i bars)
  case Nil
  then show ?case by simp
next
  case (Cons k names)
  from Cons.prems obtain label rest where l: "toFixed2 (Get obj k) = Inr label"
    and r: "barChart ar T obj (i + 1) names = Inr rest"
    and b: "bars = \<lparr>bar_width = percentage ar T (Get obj k),
                    bar_color = colors ! (i mod length colors),
                    bar_title = [Lit k, Lit '': '', label, Lit '' hours'']\<rparr> # rest"
    by (auto split: sum.splits)
  from Cons.IH [OF r] show ?case
    unfolding b using l by (simp add: bar_name_def)
qed

lemma toFixed2_Other: "isl (toFixed2 Other)"
  by (simp add: toFixed2_def)

lemma renderSummary_bars:
  assumes "renderSummary ar entries = Inr (Summary title header bars items)"
  shows "barChart ar (fst (summaryTotals ar entries)) (snd (summaryTotals ar entries)) 0
           (sortedProjects ar (snd (summaryTotals ar entries))) = Inr bars"
  using assms unfolding renderSummary_def Let_def by (auto split: sum.splits)

text \<open>
  Whenever the summary is rendered, there is one bar for each project of
  \<open>sortedProjects\<close>, and its width is the share that \<open>percentage\<close> computes from the
  total and the hours of the project as the loop has added them.
\<close>

lemma shares_of_bars:
  assumes "renderSummary ar entries = Inr (Summary title header bars items)"
  shows "map bar_name bars = sortedProjects ar (snd (summaryTotals ar entries))
       \<and> (\<forall>b \<in> set bars.
             bar_width b
               = percentage ar (foldl (fplus ar) (Some (fzero ar)) (map hours entries))
                   (Number (projectHours ar entries (bar_name b))))"
proof -
  define T where "T = fst (summaryTotals ar entries)"
  define pt where "pt = snd (summaryTotals ar entries)"
  note b = barChart_bars [OF renderSummary_bars [OF assms], folded T_def pt_def]
  have names: "map bar_name bars = sortedProjects ar pt" using b by blast
  have width: "bar_width b = percentage ar T (Get pt (bar_name b))" if "b \<in> set bars" for b
    using b that by blast
  have fixed: "\<not> isl (toFixed2 (Get pt k))" if "k \<in> set (sortedProjects ar pt)" for k
    using b that by blast
  have "bar_width b = percentage ar T (Number (projectHours ar entries (bar_name b)))"
    if "b \<in> set bars" for b
  proof -
    have "bar_name b \<in> set (map bar_name bars)" using that by simp
    then have k: "bar_name b \<in> set (sortedProjects ar pt)" unfolding names .
    then have key: "bar_name b \<in> set (map fst (snd (summaryTotals ar entries)))"
      unfolding sortedProjects_set pt_def .
    have "bar_name b \<notin> set inherited"
      using fixed [OF k] Get_inherited [OF key] toFixed2_Other unfolding pt_def by auto
    from Get_total [OF key this] show ?thesis
      unfolding width [OF that] pt_def by simp
  qed
  then show ?thesis
    using names unfolding T_def pt_def total_of_hours by blast
qed


subsection \<open>Examples\<close>

lemma exact_ops:
  "fzero exact = 0" "fhundred exact = 100" "fadd exact x y = Some (x + y)"
  "fdiv exact x y = Some (x / y)" "fmul exact x y = Some (x * y)"
  "fplus exact (Some x) y = Some (x + y)"
  by (simp_all add: exact_def fplus_def)

lemma arrayIndex_samples:
  "arrayIndex ''Admin'' = None" "arrayIndex ''Website'' = None" "arrayIndex ''2024'' = Some 2024"
  "arrayIndex ''constructor'' = None" "arrayIndex ''toString'' = None"
  by (simp_all add: arrayIndex_def isDigit_def digit_of_def radix_value_def)

lemma inherited_samples:
  "''Admin'' \<notin> set inherited" "''Website'' \<notin> set inherited" "''2024'' \<notin> set inherited"
  "''constructor'' \<in> set inherited" "''toString'' \<in> set inherited"
  by (simp_all add: inherited_def)

lemma timeEntry_fields:
  "project_name (project (timeEntry name h)) = name" "hours (timeEntry name h) = h"
  by (simp_all add: timeEntry_def)

lemma totals_samples:
  "summaryTotals exact [timeEntry ''Admin'' 3, timeEntry ''Website'' 1]
     = (Some 4, [(''Admin'', Number (Some 3)), (''Website'', Number (Some 1))])"
  "summaryTotals exact [timeEntry ''Admin'' 1, timeEntry ''2024'' 1]
     = (Some 2, [(''Admin'', Number (Some 1)), (''2024'', Number (Some 1))])"
  "summaryTotals exact [timeEntry ''__proto__'' (5 / 2)] = (Some (5 / 2), [])"
  "summaryTotals exact [timeEntry ''constructor'' (5 / 2)] = (Some (5 / 2), [(''constructor'', Other)])"
  "summaryTotals exact [timeEntry ''Admin'' 1, timeEntry ''__proto__'' 3]
     = (Some 4, [(''Admin'', Number (Some 1))])"
  "summaryTotals exact [timeEntry ''Admin'' 1, timeEntry ''toString'' 1]
     = (Some 2, [(''Admin'', Number (Some 1)), (''toString'', Other)])"
  "summaryTotals exact [timeEntry ''Website'' 1, timeEntry ''Admin'' 3, timeEntry ''Website'' 2]
     = (Some 6, [(''Website'', Number (Some 3)), (''Admin'', Number (Some 3))])"
  by (simp_all add: summaryTotals_def addEntry_new addEntry_proto addEntry_inherited
      addEntry_old [where a = "Some 1"] timeEntry_fields inherited_samples exact_ops)

lemma sortedProjects_samples:
  "sortedProjects exact [(''Admin'', Number (Some 3)), (''Website'', Number (Some 1))]
     = [''Admin'', ''Website'']"
  "sortedProjects exact [(''Admin'', Number (Some 1)), (''2024'', Number (Some 1))]
     = [''2024'', ''Admin'']"
  "sortedProjects exact [] = []"
  "sortedProjects exact [(''constructor'', Other)] = [''constructor'']"
  "sortedProjects exact [(''Admin'', Number (Some 1))] = [''Admin'']"
  "sortedProjects exact [(''Admin'', Number (Some 1)), (''toString'', Other)]
     = [''Admin'', ''toString'']"
  "sortedProjects exact [(''Website'', Number (Some 3)), (''Admin'', Number (Some 3))]
     = [''Website'', ''Admin'']"
  by (simp_all add: sortedProjects_def sortDesc_def Object_keys_def arrayIndex_samples sortKey_def
      Get_def exact_ops)

lemma projectHours_samples:
  "projectHours exact [timeEntry ''Website'' 1, timeEntry ''Admin'' 3, timeEntry ''Website'' 2]
      ''Website'' = Some 3"
  "projectHours exact [timeEntry ''Website'' 1, timeEntry ''Admin'' 3, timeEntry ''Website'' 2]
      ''Admin'' = Some 3"
  "projectHours exact [timeEntry ''Admin'' 1, timeEntry ''2024'' 1] ''Admin'' = Some 1"
  "projectHours exact [timeEntry ''Admin'' 1, timeEntry ''2024'' 1] ''2024'' = Some 1"
  by (simp_all add: projectHours_def timeEntry_fields exact_ops)

theorem projects_order_witness:
  "sortedProjects exact (snd (summaryTotals exact [timeEntry ''Website'' 1, timeEntry ''Admin'' 3,
       timeEntry ''Website'' 2])) = [''Website'', ''Admin'']
   \<and> projectHours exact [timeEntry ''Website'' 1, timeEntry ''Admin'' 3, timeEntry ''Website'' 2]
        ''Website'' = Some 3
   \<and> projectHours exact [timeEntry ''Website'' 1, timeEntry ''Admin'' 3, timeEntry ''Website'' 2]
        ''Admin'' = Some 3
   \<and> propertyOrder (firstEncountered (projectNames [timeEntry ''Website'' (1 :: real),
        timeEntry ''Admin'' 3, timeEntry ''Website'' 2])) = [''Website'', ''Admin'']"
proof -
  have po: "propertyOrder (firstEncountered (projectNames [timeEntry ''Website'' (1 :: real),
        timeEntry ''Admin'' 3, timeEntry ''Website'' 2])) = [''Website'', ''Admin'']"
    by (simp add: propertyOrder_def firstEncountered_def projectNames_def timeEntry_fields
        arrayIndex_samples)
  show ?thesis
    using projects_order [of "[timeEntry ''Website'' 1, timeEntry ''Admin'' 3, timeEntry ''Website'' 2]"
        exact]
    unfolding po totals_samples snd_conv sortedProjects_samples
    by (simp add: timeEntry_fields inherited_samples projectHours_samples)
qed

text \<open>
  C9 as stated fails when a project's name is an array index: with one hour on
  \<open>Admin\<close> and then one hour on \<open>2024\<close>, the project \<open>2024\<close> comes first.
\<close>

theorem index_named_project_first:
  "sortedProjects exact (snd (summaryTotals exact [timeEntry ''Admin'' 1, timeEntry ''2024'' 1]))
     = [''2024'', ''Admin'']
   \<and> projectHours exact [timeEntry ''Admin'' 1, timeEntry ''2024'' 1] ''Admin''
     = projectHours exact [timeEntry ''Admin'' 1, timeEntry ''2024'' 1] ''2024''
   \<and> firstEncountered (projectNames [timeEntry ''Admin'' (1 :: real), timeEntry ''2024'' 1])
     = [''Admin'', ''2024'']"
  unfolding totals_samples snd_conv sortedProjects_samples projectHours_samples
  by (simp add: firstEncountered_def projectNames_def timeEntry_fields)

text \<open>
  C8 fails for a project named \<open>__proto__\<close>: with one hour on \<open>Admin\<close> and three hours on
  \<open>__proto__\<close>, the total is four hours, the chart has the one bar of \<open>Admin\<close> at 25
  percent, and the project with three of the four hours has no share.
\<close>

theorem proto_project_has_no_share:
  "renderSummary exact [timeEntry ''Admin'' 1, timeEntry ''__proto__'' 3]
     = Inr (Summary ''Time summary'' [Lit ''Total hours: '', Fixed2 4]
         [\<lparr>bar_width = Some 25, bar_color = ''#84b65a'',
            bar_title = [Lit ''Admin'', Lit '': '', Fixed2 1, Lit '' hours'']\<rparr>]
         [\<lparr>swatch_color = ''#84b65a'',
            legend_label = [Lit ''Admin'', Lit '': '', Fixed2 1, Lit '' hours'']\<rparr>])"
  unfolding renderSummary_def Let_def totals_samples fst_conv snd_conv sortedProjects_samples
  by (simp add: Get_def toFixed2_def percentage_def colors_def exact_ops)

text \<open>
  For a project with the name of an inherited function, such as \<open>toString\<close> or
  \<open>constructor\<close>, the value kept is not a number, and rendering the summary throws.
\<close>

lemma inherited_name_throws:
  "renderSummary exact [timeEntry ''Admin'' 1, timeEntry ''toString'' 1]
     = Inl (TypeError ''projectHours.toFixed is not a function'')"
  "renderSummary exact [timeEntry ''constructor'' (5 / 2)]
     = Inl (TypeError ''projectHours.toFixed is not a function'')"
  unfolding renderSummary_def Let_def totals_samples fst_conv snd_conv sortedProjects_samples
  by (simp_all add: Get_def toFixed2_def inherited_samples)

text \<open>
  C7 fails for a project named \<open>__proto__\<close>: its hours are counted in the total, and no
  total is kept for the project, so the totals of the projects (there are none) do not
  add up to the total of the hours.
\<close>

theorem proto_project_not_totalled:
  "fst (summaryTotals exact [timeEntry ''__proto__'' (5 / 2)]) = Some (5 / 2)
   \<and> Object_keys (snd (summaryTotals exact [timeEntry ''__proto__'' (5 / 2)])) = []
   \<and> renderSummary exact [timeEntry ''__proto__'' (5 / 2)]
       = Inr (Summary ''Time summary'' [Lit ''Total hours: '', Fixed2 (5 / 2)] [] [])"
  unfolding renderSummary_def Let_def totals_samples fst_conv snd_conv sortedProjects_samples
  by (simp add: Object_keys_def)

text \<open>In every arithmetic, and whatever the hours, no total is kept for \<open>__proto__\<close>.\<close>

lemma proto_project_dropped:
  "summaryTotals ar [timeEntry ''__proto__'' x] = (fadd ar (fzero ar) x, [])"
  by (simp add: summaryTotals_def addEntry_proto timeEntry_fields fplus_def)

text \<open>The summary of entries whose hours are all \<open>0\<close>: the share is \<open>0\<close> percent.\<close>

lemma percentage_zero_total:
  "renderSummary exact [timeEntry ''Admin'' 0]
     = Inr (Summary ''Time summary'' [Lit ''Total hours: '', Fixed2 0]
         [\<lparr>bar_width = Some 0, bar_color = ''#84b65a'',
            bar_title = [Lit ''Admin'', Lit '': '', Fixed2 0, Lit '' hours'']\<rparr>]
         [\<lparr>swatch_color = ''#84b65a'',
            legend_label = [Lit ''Admin'', Lit '': '', Fixed2 0, Lit '' hours'']\<rparr>])"
proof -
  have "summaryTotals exact [timeEntry ''Admin'' 0] = (Some 0, [(''Admin'', Number (Some 0))])"
    by (simp add: summaryTotals_def addEntry_new timeEntry_fields inherited_samples exact_ops)
  moreover have "sortedProjects exact [(''Admin'', Number (Some 0))] = [''Admin'']"
    by (simp add: sortedProjects_def sortDesc_def Object_keys_def arrayIndex_samples)
  ultimately show ?thesis
    unfolding renderSummary_def Let_def
    by (simp add: Get_def toFixed2_def percentage_def colors_def exact_ops)
qed


subsection \<open>The sum of the totals in exact arithmetic\<close>

lemma foldl_exact:
  "foldl (\<lambda>a x. fadd exact (case a of None \<Rightarrow> fzero exact | Some y \<Rightarrow> y) x) (Some a) hs
     = Some (a + sum_list hs)"
  by (induction hs arbitrary: a) (simp_all add: exact_ops algebra_simps)

lemma foldl_fplus_exact: "foldl (fplus exact) (Some a) hs = Some (a + sum_list hs)"
  by (induction hs arbitrary: a) (simp_all add: exact_ops algebra_simps)

lemma projectHours_exact: "projectHours exact xs k = Some (hoursSum xs k)"
  unfolding projectHours_def hoursSum_def exact_ops(1) [symmetric] foldl_exact
  by (simp add: exact_ops)

lemma hoursSum_snoc:
  "hoursSum (xs @ [e]) k = hoursSum xs k + (if project_name (project e) = k then hours e else 0)"
  by (simp add: hoursSum_def)

lemma hoursSum_absent: "k \<notin> set (projectNames xs) \<Longrightarrow> hoursSum xs k = 0"
  by (induction xs) (auto simp: hoursSum_def projectNames_def)

lemma sum_list_insort_key:
  fixes g :: "'a \<Rightarrow> real"
  shows "sum_list (map g (insort_key f x ys)) = g x + sum_list (map g ys)"
  by (induction ys) simp_all

lemma sum_list_sort_key:
  fixes g :: "'a \<Rightarrow> real"
  shows "sum_list (map g (sort_key f ys)) = sum_list (map g ys)"
  by (induction ys) (simp_all add: sum_list_insort_key)

lemma sum_list_partition:
  fixes g :: "'a \<Rightarrow> real"
  shows "sum_list (map g (filter P ys)) + sum_list (map g (filter (\<lambda>y. \<not> P y) ys))
           = sum_list (map g ys)"
  by (induction ys) simp_all

lemma sum_list_propertyOrder:
  fixes g :: "string \<Rightarrow> real"
  shows "sum_list (map g (propertyOrder names)) = sum_list (map g names)"
  using sum_list_partition [of g "\<lambda>k. arrayIndex k \<noteq> None" names]
  by (simp add: propertyOrder_def sum_list_sort_key)

lemma sum_list_add_at:
  fixes f :: "'a \<Rightarrow> real"
  assumes "distinct ks"
  shows "sum_list (map (\<lambda>k. f k + (if n = k then h else 0)) ks)
           = sum_list (map f ks) + (if n \<in> set ks then h else 0)"
  using assms by (induction ks) auto

lemma sum_hoursSum:
  "sum_list (map (hoursSum xs) (firstEncountered (projectNames xs))) = sum_list (map hours xs)"
proof (induction xs rule: rev_induct)
  case Nil
  show ?case by (simp add: firstEncountered_def projectNames_def)
next
  case (snoc e xs)
  define n where "n = project_name (project e)"
  define ks where "ks = firstEncountered (projectNames xs)"
  have names: "projectNames (xs @ [e]) = projectNames xs @ [n]"
    by (simp add: projectNames_def n_def)
  have ph: "hoursSum (xs @ [e]) = (\<lambda>k. hoursSum xs k + (if n = k then hours e else 0))"
    unfolding n_def by (rule ext) (rule hoursSum_snoc)
  have d: "distinct ks" unfolding ks_def by (rule firstEncountered_distinct)
  have s: "set ks = set (projectNames xs)" unfolding ks_def by (rule firstEncountered_set)
  have IH: "sum_list (map (hoursSum xs) ks) = sum_list (map hours xs)"
    unfolding ks_def by (rule snoc)
  show ?case
  proof (cases "n \<in> set (projectNames xs)")
    case True
    then show ?thesis
      unfolding names firstEncountered_snoc ph ks_def [symmetric]
      using sum_list_add_at [OF d, of "hoursSum xs" n "hours e"] IH s by simp
  next
    case False
    then have "hoursSum xs n = 0" by (rule hoursSum_absent)
    with False show ?thesis
      unfolding names firstEncountered_snoc ph ks_def [symmetric]
      using sum_list_add_at [OF d, of "hoursSum xs" n "hours e"] IH s by simp
  qed
qed

text \<open>
  In exact arithmetic, when no project has the name of a member that \<open>{}\<close> inherits,
  the value under each listed name is the sum of the hours of the project, and these
  sums add up to the total.
\<close>

lemma totals_sum:
  assumes "\<forall>e \<in> set entries. project_name (project e) \<notin> set inherited"
  shows "\<forall>k \<in> set (Object_keys (snd (summaryTotals exact entries))).
           Get (snd (summaryTotals exact entries)) k = Number (Some (hoursSum entries k))"
    and "fst (summaryTotals exact entries) = Some (sum_list (map hours entries))"
    and "sum_list (map (hoursSum entries) (Object_keys (snd (summaryTotals exact entries))))
           = sum_list (map hours entries)"
proof -
  have keys: "map fst (snd (summaryTotals exact entries)) = firstEncountered (projectNames entries)"
    unfolding names_of_totals no_proto [OF assms] ..
  show "\<forall>k \<in> set (Object_keys (snd (summaryTotals exact entries))).
           Get (snd (summaryTotals exact entries)) k = Number (Some (hoursSum entries k))"
  proof
    fix k assume "k \<in> set (Object_keys (snd (summaryTotals exact entries)))"
    then have k: "k \<in> set (map fst (snd (summaryTotals exact entries)))"
      unfolding Object_keys_propertyOrder propertyOrder_set .
    then have "k \<in> set (projectNames entries)" unfolding keys firstEncountered_set .
    then have "k \<notin> set inherited" using assms by (auto simp: projectNames_def)
    from Get_total [OF k this]
    show "Get (snd (summaryTotals exact entries)) k = Number (Some (hoursSum entries k))"
      unfolding projectHours_exact .
  qed
  show "fst (summaryTotals exact entries) = Some (sum_list (map hours entries))"
    unfolding total_of_hours exact_ops(1) foldl_fplus_exact by simp
  show "sum_list (map (hoursSum entries) (Object_keys (snd (summaryTotals exact entries))))
           = sum_list (map hours entries)"
    unfolding Object_keys_propertyOrder sum_list_propertyOrder keys sum_hoursSum ..
qed

end
